theory Spec2Isabelle
  imports Complex_Main
begin

section \<open>Gas price oracle (utils/gas\_price.py)\<close>

text \<open>
  Python floats are idealised as reals and Python ints are HOL ints. Wall-clock
  times (\<^verbatim>\<open>time.time()\<close>) are reals, passed in by the caller of each
  operation. The node behind \<^verbatim>\<open>w3\<close> is a record of what each call
  answers; \<open>None\<close> stands for a call that raises.
\<close>

record tx_params =
  gasPrice :: "int option"
  call_payload :: string

record w3_node =
  eth_gas_price :: "int option"
  eth_block_number :: "int option"
  eth_get_block :: "int \<Rightarrow> int option list option"
  eth_estimate_gas :: "tx_params \<Rightarrow> int option"

text \<open>The module globals \<^verbatim>\<open>last_gas_price\<close> and \<^verbatim>\<open>last_gas_update\<close>.\<close>

record gas_cache =
  last_gas_price :: "int option"
  last_gas_update :: real

definition GAS_PRICE_CACHE_TTL :: real where
  "GAS_PRICE_CACHE_TTL = 30"

definition initial_gas_cache :: gas_cache where
  "initial_gas_cache = \<lparr>last_gas_price = None, last_gas_update = 0\<rparr>"

text \<open>\<^verbatim>\<open>int(x)\<close> on a float truncates towards zero.\<close>

definition py_int :: "real \<Rightarrow> int" where
  "py_int x = (if 0 \<le> x then \<lfloor>x\<rfloor> else \<lceil>x\<rceil>)"

text \<open>
  \<^verbatim>\<open>statistics.median\<close> on an already sorted list; the code calls
  it on lists of at least ten prices only.
\<close>

definition median :: "int list \<Rightarrow> real" where
  "median xs =
     (let n = length xs in
      if n mod 2 = 1 then real_of_int (xs ! (n div 2))
      else (real_of_int (xs ! (n div 2 - 1)) + real_of_int (xs ! (n div 2))) / 2)"

text \<open>
  The loop over the last ten blocks: a block that cannot be fetched is skipped,
  a transaction without a \<^verbatim>\<open>gasPrice\<close> attribute contributes nothing.
\<close>

definition block_gas_prices :: "w3_node \<Rightarrow> int \<Rightarrow> int list" where
  "block_gas_prices w3 block_num =
     (case eth_get_block w3 block_num of
        None \<Rightarrow> []
      | Some txs \<Rightarrow> concat (map (\<lambda>tx. case tx of None \<Rightarrow> [] | Some p \<Rightarrow> [p]) txs))"

definition recent_gas_prices :: "w3_node \<Rightarrow> int \<Rightarrow> int list" where
  "recent_gas_prices w3 latest_block =
     concat (map (block_gas_prices w3) [latest_block - 10 .. latest_block - 1])"

definition min_gas_price :: int where
  "min_gas_price = 1 * 10 ^ 9"

definition standard_gas_price :: int where
  "standard_gas_price = 20 * 10 ^ 9"

text \<open>The body of the \<^verbatim>\<open>try\<close> block once both node reads have succeeded.\<close>

definition fresh_gas_price :: "string \<Rightarrow> int \<Rightarrow> int list \<Rightarrow> int" where
  "fresh_gas_price strategy gas_price gas_prices =
     (let optimal_gas_price =
        (if 10 \<le> length gas_prices then
           (let sorted_prices = sort gas_prices;
                n = length sorted_prices;
                pick =
                  (if strategy = ''fast'' then real_of_int (sorted_prices ! nat (py_int (real n * 0.9)))
                   else if strategy = ''economic'' then real_of_int (sorted_prices ! nat (py_int (real n * 0.25)))
                   else median sorted_prices)
            in py_int (pick * 1.05))
         else
           (if strategy = ''fast'' then py_int (real_of_int gas_price * 1.2)
            else if strategy = ''economic'' then py_int (real_of_int gas_price * 0.9)
            else gas_price))
      in max optimal_gas_price min_gas_price)"

text \<open>The test that guards the cached value: a price is stored and is younger than the TTL.\<close>

definition cache_is_live :: "gas_cache \<Rightarrow> real \<Rightarrow> bool" where
  "cache_is_live cache current_time =
     ((case last_gas_price cache of None \<Rightarrow> False | Some p \<Rightarrow> p \<noteq> 0)
      \<and> current_time - last_gas_update cache < GAS_PRICE_CACHE_TTL)"

text \<open>
  The \<^verbatim>\<open>try\<close> block with its handler: the two node reads, the
  estimate, the cache update; when a read raises, the fallback of 20 Gwei is
  returned and the cache is left as it is.
\<close>

definition refresh_gas_price ::
  "w3_node \<Rightarrow> string \<Rightarrow> gas_cache \<Rightarrow> real \<Rightarrow> int \<times> gas_cache" where
  "refresh_gas_price w3 strategy cache current_time =
     (case eth_gas_price w3 of
        None \<Rightarrow> (standard_gas_price, cache)
      | Some gas_price \<Rightarrow>
          (case eth_block_number w3 of
             None \<Rightarrow> (standard_gas_price, cache)
           | Some latest_block \<Rightarrow>
               (let optimal_gas_price =
                      fresh_gas_price strategy gas_price (recent_gas_prices w3 latest_block)
                in (optimal_gas_price,
                    \<lparr>last_gas_price = Some optimal_gas_price,
                     last_gas_update = current_time\<rparr>))))"

definition get_optimal_gas_price ::
  "w3_node \<Rightarrow> string \<Rightarrow> gas_cache \<Rightarrow> real \<Rightarrow> int \<times> gas_cache" where
  "get_optimal_gas_price w3 strategy cache current_time =
     (case last_gas_price cache of
        None \<Rightarrow> refresh_gas_price w3 strategy cache current_time
      | Some cached \<Rightarrow>
          if cached \<noteq> 0 \<and> current_time - last_gas_update cache < GAS_PRICE_CACHE_TTL
          then (cached, cache)
          else refresh_gas_price w3 strategy cache current_time)"

subsection \<open>Transaction cost and the margin gate\<close>

text \<open>
  The numbers these functions pass around are of three Python types, and the
  type decides what arithmetic does: \<^verbatim>\<open>w3.from_wei\<close> returns the int
  \<^verbatim>\<open>0\<close> for 0 wei and a \<^verbatim>\<open>decimal.Decimal\<close> otherwise, and
  the product of a \<^verbatim>\<open>Decimal\<close> and a float raises
  \<^verbatim>\<open>TypeError\<close>. A \<^verbatim>\<open>Decimal\<close> is given by its exact value.
\<close>

datatype py_number = PyFloat real | PyInt int | PyDecimal real

datatype error = TypeError | ValueError | ProviderError


text \<open>\<^verbatim>\<open>x * f\<close> for a float \<^verbatim>\<open>f\<close>.\<close>

fun times_float :: "py_number \<Rightarrow> real \<Rightarrow> error + real" where
  "times_float (PyFloat x) f = Inr (x * f)"
| "times_float (PyInt i) f = Inr (real_of_int i * f)"
| "times_float (PyDecimal d) f = Inl TypeError"

text \<open>
  \<^verbatim>\<open>w3.from_wei(number, 'ether')\<close>: 0 for 0, a refusal of a negative
  value or one above \<open>2^256 - 1\<close>, otherwise the exact quotient by
  \<open>10^18\<close> as a \<^verbatim>\<open>Decimal\<close>.
\<close>

definition from_wei :: "int \<Rightarrow> error + py_number" where
  "from_wei number =
     (if number = 0 then Inr (PyInt 0)
      else if number < 0 \<or> number > 2 ^ 256 - 1 then Inl ValueError
      else Inr (PyDecimal (real_of_int number / 10 ^ 18)))"

text \<open>
  \<^verbatim>\<open>estimate_transaction_cost\<close>: any exception inside the \<^verbatim>\<open>try\<close>
  block (the gas estimation, the conversion) gives the float \<^verbatim>\<open>0.0\<close>;
  otherwise the value of \<^verbatim>\<open>from_wei\<close> is returned as it is. A gas
  price cache refreshed on the way stays refreshed.
\<close>

definition estimate_transaction_cost ::
  "w3_node \<Rightarrow> tx_params \<Rightarrow> gas_cache \<Rightarrow> real \<Rightarrow> py_number \<times> gas_cache" where
  "estimate_transaction_cost w3 tx cache current_time =
     (case eth_estimate_gas w3 tx of
        None \<Rightarrow> (PyFloat 0, cache)
      | Some gas_estimate \<Rightarrow>
          (let (gas_price, cache') =
                 (case gasPrice tx of
                    None \<Rightarrow> get_optimal_gas_price w3 ''balanced'' cache current_time
                  | Some p \<Rightarrow>
                      if p = 0 then get_optimal_gas_price w3 ''balanced'' cache current_time
                      else (p, cache));
               cost_wei = gas_estimate * gas_price
           in case from_wei cost_wei of
                Inl e \<Rightarrow> (PyFloat 0, cache')
              | Inr cost_eth \<Rightarrow> (cost_eth, cache')))"

text \<open>
  \<^verbatim>\<open>is_transaction_profitable\<close>: the cost times the margin 1.2, then
  the comparison. \<open>Inl\<close> is the exception that leaves the function when the
  product cannot be formed.
\<close>

definition is_transaction_profitable ::
  "w3_node \<Rightarrow> tx_params \<Rightarrow> real \<Rightarrow> gas_cache \<Rightarrow> real \<Rightarrow> error + bool" where
  "is_transaction_profitable w3 tx expected_profit_eth cache current_time =
     (let cost_eth = fst (estimate_transaction_cost w3 tx cache current_time) in
      case times_float cost_eth 1.2 of
        Inl e \<Rightarrow> Inl e
      | Inr cost_with_margin \<Rightarrow> Inr (expected_profit_eth > cost_with_margin))"

section \<open>Profitability analysis (utils/profitability.py)\<close>

text \<open>
  \<^verbatim>\<open>Web3Provider.get_eth_price\<close> returns the hard-coded price.
\<close>

definition get_eth_price :: real where
  "get_eth_price = 3000"

text \<open>
  \<^verbatim>\<open>calculate_profitability\<close>. \<open>provider_ready\<close> says whether
  \<^verbatim>\<open>get_web3_provider()\<close> returns; when it raises with a given
  \<^verbatim>\<open>gas_cost_eth\<close>, the exception leaves the function (\<open>Inl\<close>). On
  the estimation path everything happens inside a \<^verbatim>\<open>try\<close> block: an
  exception of the provider or of the product of the estimate and the price is
  caught, and no gas cost is charged. The gas price cache that the estimation
  may refresh is not part of the result.
\<close>

definition calculate_profitability ::
  "w3_node option \<Rightarrow> real \<Rightarrow> real \<Rightarrow> real \<Rightarrow> tx_params option \<Rightarrow> real option \<Rightarrow> real \<Rightarrow> bool
     \<Rightarrow> bool \<Rightarrow> gas_cache \<Rightarrow> real \<Rightarrow> error + (real \<times> real \<times> bool)" where
  "calculate_profitability w3 buy_price sell_price quantity tx gas_cost_eth
       flash_loan_fee_percentage is_flash_loan provider_ready cache current_time =
     (let raw_profit = (sell_price - buy_price) * quantity;
          flash_loan_fee =
            (if is_flash_loan then (buy_price * quantity) * (flash_loan_fee_percentage / 100) else 0);
          gas_cost_usd =
            (case gas_cost_eth of
               Some g \<Rightarrow> if provider_ready then Inr (g * get_eth_price) else Inl ProviderError
             | None \<Rightarrow>
                 (case (tx, w3) of
                    (Some tx', Some w3') \<Rightarrow>
                      if provider_ready
                      then (case times_float
                                   (fst (estimate_transaction_cost w3' tx' cache current_time))
                                   get_eth_price of
                              Inl e \<Rightarrow> Inr 0
                            | Inr usd \<Rightarrow> Inr usd)
                      else Inr 0
                  | _ \<Rightarrow> Inr 0))
      in case gas_cost_usd of
           Inl e \<Rightarrow> Inl e
         | Inr gas_usd \<Rightarrow>
             (let total_cost = flash_loan_fee + gas_usd;
                  net_profit = raw_profit - total_cost;
                  investment = buy_price * quantity;
                  profit_percentage = (if investment > 0 then (net_profit / investment) * 100 else 0);
                  is_profitable = (net_profit > 0)
              in Inr (net_profit, profit_percentage, is_profitable)))"


text \<open>A node on which a call costs exactly 2 ETH: 2 gas at \<open>10^18\<close> wei each.\<close>

definition two_eth_node :: w3_node where
  "two_eth_node =
     \<lparr>eth_gas_price = None, eth_block_number = None,
      eth_get_block = (\<lambda>_. None), eth_estimate_gas = (\<lambda>_. Some 2)\<rparr>"

definition two_eth_tx :: tx_params where
  "two_eth_tx = \<lparr>gasPrice = Some (10 ^ 18), call_payload = []\<rparr>"

text \<open>A node whose gas estimation raises.\<close>

definition failing_node :: w3_node where
  "failing_node =
     \<lparr>eth_gas_price = Some (30 * 10 ^ 9), eth_block_number = Some 100,
      eth_get_block = (\<lambda>_. None), eth_estimate_gas = (\<lambda>_. None)\<rparr>"

text \<open>
  A node whose block 99 holds eleven transactions with gas prices of 1 to 11
  Gwei; the other blocks cannot be fetched.
\<close>

definition sample_node :: w3_node where
  "sample_node =
     \<lparr>eth_gas_price = Some (5 * 10 ^ 9), eth_block_number = Some 100,
      eth_get_block =
        (\<lambda>b. if b = 99 then Some (map (\<lambda>i. Some (i * 10 ^ 9)) [10, 9, 8, 7, 6, 5, 4, 3, 2, 1, 11])
             else None),
      eth_estimate_gas = (\<lambda>_. Some 21000)\<rparr>"

section \<open>Event bus (core/event\_bus.py)\<close>

text \<open>
  \<^verbatim>\<open>self.subscribers\<close> is a dict from event type to the list of
  callbacks. Callbacks are values of a type \<open>'h\<close> compared with equality,
  as Python's \<^verbatim>\<open>in\<close> compares callables.
\<close>

type_synonym 'h subscribers = "string \<rightharpoonup> 'h list"

definition subscribe :: "string \<Rightarrow> 'h \<Rightarrow> 'h subscribers \<Rightarrow> 'h subscribers" where
  "subscribe event_type callback subs =
     (case subs event_type of
        None \<Rightarrow> subs(event_type \<mapsto> [callback])
      | Some handlers \<Rightarrow>
          if callback \<in> set handlers then subs
          else subs(event_type \<mapsto> handlers @ [callback]))"

definition unsubscribe :: "string \<Rightarrow> 'h \<Rightarrow> 'h subscribers \<Rightarrow> 'h subscribers" where
  "unsubscribe event_type callback subs =
     (case subs event_type of
        None \<Rightarrow> subs
      | Some handlers \<Rightarrow>
          if callback \<in> set handlers then subs(event_type \<mapsto> remove1 callback handlers)
          else subs)"

definition clear_subscribers :: "string option \<Rightarrow> 'h subscribers \<Rightarrow> 'h subscribers" where
  "clear_subscribers event_type subs =
     (case event_type of
        None \<Rightarrow> Map.empty
      | Some t \<Rightarrow>
          if t = [] then Map.empty
          else (case subs t of None \<Rightarrow> subs | Some _ \<Rightarrow> subs(t \<mapsto> [])))"

text \<open>The calls a program makes on the bus, apart from publishing.\<close>

datatype 'h bus_call =
    Subscribe string 'h
  | Unsubscribe string 'h
  | ClearSubscribers "string option"

fun apply_bus_call :: "'h bus_call \<Rightarrow> 'h subscribers \<Rightarrow> 'h subscribers" where
  "apply_bus_call (Subscribe t h) subs = subscribe t h subs"
| "apply_bus_call (Unsubscribe t h) subs = unsubscribe t h subs"
| "apply_bus_call (ClearSubscribers t) subs = clear_subscribers t subs"

definition bus_after :: "'h bus_call list \<Rightarrow> 'h subscribers" where
  "bus_after calls = foldl (\<lambda>subs c. apply_bus_call c subs) Map.empty calls"

text \<open>
  What a callback does is given by \<open>run\<close>: from the data and the state of the
  rest of the program it yields the new state, the calls it makes on the bus
  (before it returns or raises), and, when it raises, the exception's message.
  A callback that publishes in turn is not covered.

  \<^verbatim>\<open>publish\<close> walks the list object stored under the event type, by
  index, while the callbacks run; \<^verbatim>\<open>subscribe\<close> and
  \<^verbatim>\<open>unsubscribe\<close> change that object in place, and
  \<^verbatim>\<open>clear_subscribers\<close> stores a new list (or a new dict) and leaves
  the walked object as it is. \<open>walked\<close> is the content of the walked object
  and \<open>attached\<close> says whether the dict still holds it under the event type.
\<close>

record ('h, 'w) publishing =
  world :: 'w
  registry :: "'h subscribers"
  walked :: "'h list"
  attached :: bool
  handler_errors :: "string list"

fun rebinds :: "string \<Rightarrow> 'h bus_call \<Rightarrow> bool" where
  "rebinds t (Subscribe t' h) = False"
| "rebinds t (Unsubscribe t' h) = False"
| "rebinds t (ClearSubscribers None) = True"
| "rebinds t (ClearSubscribers (Some t')) = (t' = [] \<or> t' = t)"

definition during_publish ::
  "string \<Rightarrow> 'h bus_call \<Rightarrow> ('h, 'w) publishing \<Rightarrow> ('h, 'w) publishing" where
  "during_publish t c p =
     (let registry' = apply_bus_call c (registry p);
          attached' = (attached p \<and> \<not> rebinds t c)
      in p\<lparr>registry := registry',
            attached := attached',
            walked := (if attached'
                       then (case registry' t of Some l \<Rightarrow> l | None \<Rightarrow> walked p)
                       else walked p)\<rparr>)"

text \<open>
  The \<^verbatim>\<open>for\<close> loop from index \<open>i\<close>. A callback that subscribes a new
  callback each time it runs keeps the loop going for ever, so the loop takes
  fuel: \<open>None\<close> means the fuel did not suffice.
\<close>

fun publish_loop ::
  "nat \<Rightarrow> ('h \<Rightarrow> 'd \<Rightarrow> 'w \<Rightarrow> 'w \<times> 'h bus_call list \<times> string option) \<Rightarrow> string \<Rightarrow> 'd \<Rightarrow> nat
     \<Rightarrow> ('h, 'w) publishing \<Rightarrow> ('h, 'w) publishing option" where
  "publish_loop 0 run t d i p = None"
| "publish_loop (Suc fuel) run t d i p =
     (if i < length (walked p) then
        (case run (walked p ! i) d (world p) of
           (w', calls, raised) \<Rightarrow>
             publish_loop fuel run t d (Suc i)
               (foldl (\<lambda>q c. during_publish t c q)
                  (p\<lparr>world := w',
                     handler_errors :=
                       (case raised of
                          None \<Rightarrow> handler_errors p
                        | Some e \<Rightarrow>
                            handler_errors p
                              @ [''Error in event handler for '' @ t @ '': '' @ e])\<rparr>)
                  calls))
      else Some p)"

text \<open>
  \<^verbatim>\<open>publish\<close>: the state of the program, the bus and the errors logged
  when the call returns.
\<close>

definition publish ::
  "nat \<Rightarrow> ('h \<Rightarrow> 'd \<Rightarrow> 'w \<Rightarrow> 'w \<times> 'h bus_call list \<times> string option) \<Rightarrow> 'h subscribers \<Rightarrow> string
     \<Rightarrow> 'd \<Rightarrow> 'w \<Rightarrow> ('w \<times> 'h subscribers \<times> string list) option" where
  "publish fuel run subs event_type data w =
     (case subs event_type of
        None \<Rightarrow> Some (w, subs, [])
      | Some handlers \<Rightarrow>
          map_option (\<lambda>p. (world p, registry p, handler_errors p))
            (publish_loop fuel run event_type data 0
               \<lparr>world = w, registry = subs, walked = handlers, attached = True,
                handler_errors = []\<rparr>))"

text \<open>
  Callbacks that keep count: next to what \<open>run\<close> does, each call of a
  callback adds one to that callback's counter.
\<close>

definition counting ::
  "('h \<Rightarrow> 'd \<Rightarrow> 'w \<Rightarrow> 'w \<times> 'h bus_call list \<times> string option)
     \<Rightarrow> 'h \<Rightarrow> 'd \<Rightarrow> 'w \<times> ('h \<Rightarrow> nat) \<Rightarrow> ('w \<times> ('h \<Rightarrow> nat)) \<times> 'h bus_call list \<times> string option" where
  "counting run callback data state =
     (case run callback data (fst state) of
        (w', calls, raised) \<Rightarrow>
          ((w', (snd state)(callback := snd state callback + 1)), calls, raised))"

text \<open>No callback is registered twice for one event type.\<close>

definition distinct_handlers :: "'h subscribers \<Rightarrow> bool" where
  "distinct_handlers subs = (\<forall>hs \<in> ran subs. distinct hs)"



section \<open>Mempool monitor (mev/mempool.py)\<close>

text \<open>
  The monitor's fields that the feed handler, the classification loop and the
  reconnect loop touch. \<open>pending_txs\<close> is the dict of pending hashes: its
  keys in insertion order (the time stamps stored with them are never read).
  \<open>published\<close> collects what is handed to
  \<^verbatim>\<open>event_bus.publish_async\<close>, topic and transaction hash, and
  \<open>log\<close> the lines written with \<^verbatim>\<open>logger.error\<close> and
  \<^verbatim>\<open>logger.warning\<close>.
\<close>

record 'h monitor =
  pending_txs :: "'h list"
  processed_txs :: "'h set"
  running :: bool
  tx_count :: nat
  interesting_tx_count :: nat
  published :: "(string \<times> 'h) list"
  log :: "string list"

definition initial_monitor :: "'h monitor" where
  "initial_monitor =
     \<lparr>pending_txs = [], processed_txs = {}, running = True, tx_count = 0,
      interesting_tx_count = 0, published = [], log = []\<rparr>"

text \<open>
  A message from the websocket: a subscription notification carrying a
  transaction hash, some other well-formed JSON, or text that is not JSON.
\<close>

datatype 'h ws_message = Notification 'h | OtherJson | InvalidJson

fun handle_websocket_message :: "'h ws_message \<Rightarrow> 'h monitor \<Rightarrow> 'h monitor" where
  "handle_websocket_message (Notification tx_hash) s =
     (if tx_hash \<in> processed_txs s then s
      else s\<lparr>pending_txs :=
                 (if tx_hash \<in> set (pending_txs s) then pending_txs s
                  else pending_txs s @ [tx_hash]),
              tx_count := tx_count s + 1\<rparr>)"
| "handle_websocket_message OtherJson s = s"
| "handle_websocket_message InvalidJson s = s\<lparr>log := log s @ [''Invalid JSON message'']\<rparr>"

text \<open>
  One pass of the loop in \<^verbatim>\<open>_process_pending_transactions\<close>.
  \<open>interesting\<close> answers, for each hash of the batch, whether the
  transaction could be fetched and was classified as interesting. The batch is
  awaited, so the feed handler may run meanwhile: \<open>arrivals\<close> are the
  messages it handles before the batch is removed from the pending dict.
  \<open>set_order\<close> is the order in which Python iterates over a set, which the
  language does not fix.
\<close>

definition process_batch ::
  "('h set \<Rightarrow> 'h list) \<Rightarrow> ('h \<Rightarrow> bool) \<Rightarrow> 'h ws_message list \<Rightarrow> 'h monitor \<Rightarrow> 'h monitor" where
  "process_batch set_order interesting arrivals s =
     (let tx_hashes = take 20 (pending_txs s) in
      if tx_hashes = [] then s
      else
        (let hits = filter interesting tx_hashes;
             s1 = s\<lparr>interesting_tx_count := interesting_tx_count s + length hits,
                     published :=
                       published s @ map (\<lambda>h. (''interesting_transaction'', h)) hits\<rparr>;
             s2 = foldl (\<lambda>st m. handle_websocket_message m st) s1 arrivals;
             s3 = s2\<lparr>pending_txs := filter (\<lambda>h. h \<notin> set tx_hashes) (pending_txs s2),
                      processed_txs := processed_txs s2 \<union> set tx_hashes\<rparr>
         in if card (processed_txs s3) > 10000
            then (let listed = set_order (processed_txs s3)
                  in s3\<lparr>processed_txs := set (drop (length listed - 5000) listed)\<rparr>)
            else s3))"

text \<open>What the monitor sees over time: feed messages and passes of the batch loop.\<close>

datatype 'h monitor_event =
    Message "'h ws_message"
  | Batch "'h \<Rightarrow> bool" "'h ws_message list"

fun monitor_step :: "('h set \<Rightarrow> 'h list) \<Rightarrow> 'h monitor_event \<Rightarrow> 'h monitor \<Rightarrow> 'h monitor" where
  "monitor_step set_order (Message m) s = handle_websocket_message m s"
| "monitor_step set_order (Batch interesting arrivals) s =
     process_batch set_order interesting arrivals s"

definition monitor_run ::
  "('h set \<Rightarrow> 'h list) \<Rightarrow> 'h monitor_event list \<Rightarrow> 'h monitor \<Rightarrow> 'h monitor" where
  "monitor_run set_order events s = foldl (\<lambda>st e. monitor_step set_order e st) s events"

text \<open>The hashes the feed delivers in a run, with repetitions.\<close>

fun message_hashes :: "'h ws_message \<Rightarrow> 'h list" where
  "message_hashes (Notification h) = [h]"
| "message_hashes OtherJson = []"
| "message_hashes InvalidJson = []"

fun event_hashes :: "'h monitor_event \<Rightarrow> 'h list" where
  "event_hashes (Message m) = message_hashes m"
| "event_hashes (Batch interesting arrivals) = concat (map message_hashes arrivals)"

definition feed_hashes :: "'h monitor_event list \<Rightarrow> 'h list" where
  "feed_hashes events = concat (map event_hashes events)"

definition published_hashes :: "'h monitor \<Rightarrow> 'h list" where
  "published_hashes s = map snd (published s)"

text \<open>
  A feed of 10001 distinct hashes, each classified as interesting and processed
  in a batch of its own, after which hash 0 is delivered once more.
\<close>

definition one_by_one :: "nat \<Rightarrow> nat monitor_event list" where
  "one_by_one n =
     concat (map (\<lambda>i. [Message (Notification i), Batch (\<lambda>_. True) []]) [0..<n])"

definition overflow_feed :: "nat monitor_event list" where
  "overflow_feed = one_by_one 10001 @ [Message (Notification 0), Batch (\<lambda>_. True) []]"

text \<open>A short feed that delivers hash 7 three times.\<close>

definition repeated_feed :: "nat monitor_event list" where
  "repeated_feed =
     [Message (Notification 7), Message (Notification 7), Batch (\<lambda>_. True) [Notification 7],
      Message (Notification 7), Batch (\<lambda>_. True) []]"

subsection \<open>The reconnect loop\<close>

text \<open>
  One pass of the outer loop of \<^verbatim>\<open>_connect_and_subscribe\<close> ends in
  one of these ways. Before the subscription is acknowledged: one of the three
  connection exceptions of the first handler, any other exception, or a reply
  without \<^verbatim>\<open>result\<close>. After it (the retry counter has been reset
  and the listed messages have been handled): the connection closes inside
  \<^verbatim>\<open>recv\<close>, which only leaves the inner loop; the keep-alive ping
  raises a connection exception, which reaches the first handler; another
  exception is raised; or \<^verbatim>\<open>running\<close> is cleared by
  \<^verbatim>\<open>stop\<close>.
\<close>

datatype stream_end =
    ClosedInRecv
  | ConnectionErrorInPing
  | UnexpectedInStream
  | StopRequested

datatype 'h attempt =
    ConnectionError
  | UnexpectedError
  | SubscribeRejected
  | Subscribed "'h ws_message list" stream_end

text \<open>
  The loop's local variables with the monitor, and the waits
  (\<^verbatim>\<open>asyncio.sleep\<close>, in seconds) the loop has made so far.
\<close>

record 'h connector =
  mon :: "'h monitor"
  retry_count :: nat
  retry_delay :: nat
  sleeps :: "nat list"

definition max_retries :: nat where
  "max_retries = 10"

definition initial_connector :: "'h monitor \<Rightarrow> 'h connector" where
  "initial_connector m = \<lparr>mon = m, retry_count = 0, retry_delay = 5, sleeps = []\<rparr>"

definition connection_failure :: "'h connector \<Rightarrow> 'h connector" where
  "connection_failure c =
     (let count = retry_count c + 1 in
      if count > max_retries
      then c\<lparr>retry_count := count,
             mon := (mon c)\<lparr>running := False,
                              log := log (mon c)
                                @ [''Max retries (10) exceeded. Stopping mempool monitor.'']\<rparr>\<rparr>
      else c\<lparr>retry_count := count,
             mon := (mon c)\<lparr>log := log (mon c) @ [''Connection error. Retrying'']\<rparr>,
             sleeps := sleeps c @ [retry_delay c],
             retry_delay := min (retry_delay c * 2) 60\<rparr>)"

definition unexpected_failure :: "'h connector \<Rightarrow> 'h connector" where
  "unexpected_failure c =
     c\<lparr>mon := (mon c)\<lparr>log := log (mon c) @ [''Unexpected error in websocket connection'']\<rparr>,
       sleeps := sleeps c @ [retry_delay c]\<rparr>"

fun attempt_step :: "'h attempt \<Rightarrow> 'h connector \<Rightarrow> 'h connector" where
  "attempt_step ConnectionError c = connection_failure c"
| "attempt_step UnexpectedError c = unexpected_failure c"
| "attempt_step SubscribeRejected c =
     c\<lparr>mon := (mon c)\<lparr>log := log (mon c) @ [''Failed to subscribe'']\<rparr>\<rparr>"
| "attempt_step (Subscribed messages ending) c =
     (let c1 = c\<lparr>retry_count := 0,
                  mon := foldl (\<lambda>st m. handle_websocket_message m st) (mon c) messages\<rparr>
      in case ending of
           ClosedInRecv \<Rightarrow>
             c1\<lparr>mon := (mon c1)\<lparr>log := log (mon c1) @ [''Websocket connection closed'']\<rparr>\<rparr>
         | ConnectionErrorInPing \<Rightarrow> connection_failure c1
         | UnexpectedInStream \<Rightarrow> unexpected_failure c1
         | StopRequested \<Rightarrow> c1\<lparr>mon := (mon c1)\<lparr>running := False\<rparr>\<rparr>)"

text \<open>
  The outer \<^verbatim>\<open>while self.running\<close> loop over the outcomes of its
  passes: once \<open>running\<close> is false no further pass is made.
\<close>

fun connect_and_subscribe :: "'h attempt list \<Rightarrow> 'h connector \<Rightarrow> 'h connector" where
  "connect_and_subscribe [] c = c"
| "connect_and_subscribe (a # rest) c =
     (if running (mon c) then connect_and_subscribe rest (attempt_step a c) else c)"

text \<open>
  Invariants of the monitor's bookkeeping. \<open>dedup_safe H s\<close>: all hashes
  seen so far lie in \<open>H\<close>, no hash is pending twice or both pending and
  processed, and every published hash is a processed one, published once.
  \<open>dedup_bounded s\<close>: the dedup set is finite with at most 10000 entries.
\<close>

definition dedup_safe :: "'h set \<Rightarrow> 'h monitor \<Rightarrow> bool" where
  "dedup_safe H s =
     (distinct (pending_txs s)
      \<and> set (pending_txs s) \<inter> processed_txs s = {}
      \<and> set (pending_txs s) \<subseteq> H
      \<and> processed_txs s \<subseteq> H
      \<and> distinct (published_hashes s)
      \<and> set (published_hashes s) \<subseteq> processed_txs s)"

definition dedup_bounded :: "'h monitor \<Rightarrow> bool" where
  "dedup_bounded s = (finite (processed_txs s) \<and> card (processed_txs s) \<le> 10000)"

text \<open>
  \<open>set_order\<close> behaves on a set as Python's \<^verbatim>\<open>list(...)\<close> does:
  it lists every element once.
\<close>

definition lists_once :: "('h set \<Rightarrow> 'h list) \<Rightarrow> 'h set \<Rightarrow> bool" where
  "lists_once set_order S = (set (set_order S) = S \<and> distinct (set_order S))"

text \<open>A monitor with 10000 processed hashes, and one more pending.\<close>

definition full_monitor :: "nat monitor" where
  "full_monitor =
     \<lparr>pending_txs = [10000], processed_txs = {0..<10000}, running = True, tx_count = 10001,
      interesting_tx_count = 0, published = [], log = []\<rparr>"

section \<open>Bundle submission (mev/flashbots.py)\<close>

text \<open>
  An entry of the transaction list: a dict with a \<^verbatim>\<open>rawTransaction\<close>
  (given by its hex form), a string, or a value of another type (given by the
  type's name), which the conversion refuses.
\<close>

datatype tx_item = SignedTx string | RawHex string | Unsupported string

text \<open>The only element of \<^verbatim>\<open>params\<close> in the JSON-RPC payload.\<close>

record bundle_params =
  txs :: "string list"
  blockNumber :: int
  minTimestamp :: nat
  maxTimestamp :: nat
  revertingTxHashes :: "string list option"

text \<open>
  How a POST ends: with a status code and a body, or with an exception of the
  HTTP client (the 10 second timeout, a refused connection). The relays are a
  function from the endpoint and the payload to that outcome.
\<close>

datatype http_outcome = Response nat string | ClientError string

type_synonym relays = "string \<Rightarrow> bundle_params \<Rightarrow> http_outcome"

text \<open>The exceptions with which a relay task can end.\<close>

datatype relay_error =
    UnsupportedFormat string
  | SigningError
  | ClientException string
  | BadStatus nat string
  | ResponseNotRead

definition flashbots_endpoint :: string where
  "flashbots_endpoint = ''https://relay.flashbots.net''"

definition eden_endpoint :: string where
  "eden_endpoint = ''https://api.edennetwork.io/v1/bundle''"

fun to_tx_list :: "tx_item list \<Rightarrow> relay_error + string list" where
  "to_tx_list [] = Inr []"
| "to_tx_list (SignedTx raw # rest) =
     (case to_tx_list rest of Inl e \<Rightarrow> Inl e | Inr hexes \<Rightarrow> Inr (raw # hexes))"
| "to_tx_list (RawHex raw # rest) =
     (case to_tx_list rest of Inl e \<Rightarrow> Inl e | Inr hexes \<Rightarrow> Inr (raw # hexes))"
| "to_tx_list (Unsupported type_name # rest) = Inl (UnsupportedFormat type_name)"

definition flashbots_params :: "string list \<Rightarrow> int \<Rightarrow> bundle_params" where
  "flashbots_params tx_list target_block =
     \<lparr>txs = tx_list, blockNumber = target_block, minTimestamp = 0,
      maxTimestamp = 2 ^ 32 - 1, revertingTxHashes = Some []\<rparr>"

definition eden_params :: "string list \<Rightarrow> int \<Rightarrow> bundle_params" where
  "eden_params tx_list target_block =
     \<lparr>txs = tx_list, blockNumber = target_block, minTimestamp = 0,
      maxTimestamp = 2 ^ 32 - 1, revertingTxHashes = None\<rparr>"

text \<open>
  \<^verbatim>\<open>_sign_flashbots_request\<close> hashes the payload with
  \<^verbatim>\<open>Web3.keccak\<close> and hands the hash, a \<^verbatim>\<open>HexBytes\<close>, to
  \<^verbatim>\<open>account.sign_message\<close>, which signs a
  \<^verbatim>\<open>SignableMessage\<close> only and raises on anything else. So the call
  raises for every payload.
\<close>

definition sign_flashbots_request :: "bundle_params \<Rightarrow> relay_error + string" where
  "sign_flashbots_request payload = Inl SigningError"

text \<open>
  \<^verbatim>\<open>await response.json()\<close> on the streamed response: the body has
  not been read, so \<^verbatim>\<open>json()\<close> raises for every body.
\<close>

definition response_json :: "string \<Rightarrow> relay_error + string" where
  "response_json body = Inl ResponseNotRead"

text \<open>
  The POST and the handling of its reply: the result (\<open>Inl\<close> the exception
  raised, \<open>Inr\<close> the reply's JSON) and the POSTs made, endpoint and payload.
\<close>

definition post_bundle ::
  "relays \<Rightarrow> string \<Rightarrow> bundle_params
     \<Rightarrow> (relay_error + string) \<times> (string \<times> bundle_params) list" where
  "post_bundle relay endpoint params =
     (case relay endpoint params of
        ClientError e \<Rightarrow> (Inl (ClientException e), [(endpoint, params)])
      | Response status_code body \<Rightarrow>
          if status_code \<noteq> 200
          then (Inl (BadStatus status_code body), [(endpoint, params)])
          else (response_json body, [(endpoint, params)]))"

text \<open>
  One relay task: the conversion of the transactions, the payload, the
  signature, the POST.
\<close>

definition submit_to_flashbots ::
  "relays \<Rightarrow> tx_item list \<Rightarrow> int
     \<Rightarrow> (relay_error + string) \<times> (string \<times> bundle_params) list" where
  "submit_to_flashbots relay given_txs block =
     (case to_tx_list given_txs of
        Inl e \<Rightarrow> (Inl e, [])
      | Inr tx_list \<Rightarrow>
          (case sign_flashbots_request (flashbots_params tx_list block) of
             Inl e \<Rightarrow> (Inl e, [])
           | Inr signature \<Rightarrow>
               post_bundle relay flashbots_endpoint (flashbots_params tx_list block)))"

definition submit_to_eden ::
  "relays \<Rightarrow> tx_item list \<Rightarrow> int
     \<Rightarrow> (relay_error + string) \<times> (string \<times> bundle_params) list" where
  "submit_to_eden relay given_txs block =
     (case to_tx_list given_txs of
        Inl e \<Rightarrow> (Inl e, [])
      | Inr tx_list \<Rightarrow>
          (case sign_flashbots_request (eden_params tx_list block) of
             Inl e \<Rightarrow> (Inl e, [])
           | Inr signature \<Rightarrow> post_bundle relay eden_endpoint (eden_params tx_list block)))"

text \<open>
  The argument of \<^verbatim>\<open>submit_bundle\<close>: a dict whose two keys may be
  missing. The event bus may also deliver no data at all (\<open>None\<close>).
\<close>

record bundle_request =
  transactions :: "tx_item list option"
  target_block :: "int option"

text \<open>The payload of a \<^verbatim>\<open>bundle_submitted\<close> event.\<close>

datatype bundle_event = BundleSubmitted "string option" "string option" int

record manager =
  bundles_submitted :: nat
  bundles_included :: nat
  bundle_events :: "bundle_event list"
  posted :: "(string \<times> bundle_params) list"
  manager_log :: "string list"

definition initial_manager :: manager where
  "initial_manager =
     \<lparr>bundles_submitted = 0, bundles_included = 0, bundle_events = [], posted = [],
      manager_log = []\<rparr>"

text \<open>
  What \<^verbatim>\<open>asyncio.gather(..., return_exceptions=True)\<close> hands back for
  one task is put into the event as the result, or as \<open>None\<close> for an
  exception.
\<close>

definition result_or_none :: "relay_error + string \<Rightarrow> string option" where
  "result_or_none r = (case r of Inl e \<Rightarrow> None | Inr body \<Rightarrow> Some body)"

definition result_log :: "string \<Rightarrow> relay_error + string \<Rightarrow> string" where
  "result_log name r =
     (case r of
        Inl e \<Rightarrow> name @ '' submission error''
      | Inr body \<Rightarrow> name @ '' submission result: '' @ body)"

text \<open>
  The body of the \<^verbatim>\<open>try\<close> block; \<open>Inl\<close> is an exception raised
  in it. Both relay tasks run to their end, and \<^verbatim>\<open>gather\<close> hands
  back each one's result or exception.
\<close>

definition submit_bundle_body :: "relays \<Rightarrow> bundle_request option \<Rightarrow> manager \<Rightarrow> string + manager" where
  "submit_bundle_body relay data m =
     (case data of
        None \<Rightarrow> Inl ''AttributeError''
      | Some d \<Rightarrow>
          (let txs_given = (case transactions d of None \<Rightarrow> [] | Some ts \<Rightarrow> ts) in
           case target_block d of
             None \<Rightarrow>
               Inr (m\<lparr>manager_log := manager_log m
                         @ [''Missing transactions or target block in bundle submission'']\<rparr>)
           | Some block \<Rightarrow>
               if txs_given = [] \<or> block = 0
               then Inr (m\<lparr>manager_log := manager_log m
                              @ [''Missing transactions or target block in bundle submission'']\<rparr>)
               else
                 (let (flashbots_result, flashbots_posts) =
                        submit_to_flashbots relay txs_given block;
                      (eden_result, eden_posts) = submit_to_eden relay txs_given block
                  in Inr (m\<lparr>posted := posted m @ flashbots_posts @ eden_posts,
                             manager_log := manager_log m
                               @ [result_log ''Flashbots'' flashbots_result,
                                  result_log ''Eden Network'' eden_result],
                             bundles_submitted := bundles_submitted m + 1,
                             bundle_events := bundle_events m
                               @ [BundleSubmitted (result_or_none flashbots_result)
                                    (result_or_none eden_result) block]\<rparr>))))"

text \<open>
  \<^verbatim>\<open>submit_bundle\<close>: the \<^verbatim>\<open>except Exception\<close> clause logs
  whatever the body raised. \<open>Inl\<close> would be an exception that leaves the
  call.
\<close>

definition submit_bundle :: "relays \<Rightarrow> bundle_request option \<Rightarrow> manager \<Rightarrow> string + manager" where
  "submit_bundle relay data m =
     (case submit_bundle_body relay data m of
        Inl e \<Rightarrow> Inr (m\<lparr>manager_log := manager_log m @ [''Error submitting bundle: '' @ e]\<rparr>)
      | Inr m' \<Rightarrow> Inr m')"




text \<open>
  Relays for the examples: one that answers 200, and one whose Eden endpoint
  times out while its Flashbots endpoint answers 503.
\<close>

definition accepting_relays :: relays where
  "accepting_relays = (\<lambda>endpoint params. Response 200 ''accepted'')"




section \<open>Adaptive parameters (utils/adaptive\_parameters.py)\<close>

text \<open>
  An execution record as \<^verbatim>\<open>update_from_execution\<close> stores it; the
  slippage and the realized profit may be \<^verbatim>\<open>None\<close>. The history is a
  dict with one list for each of the four strategies, iterated in the order in
  which \<^verbatim>\<open>__init__\<close> inserts them. The per-exchange counters, which
  \<^verbatim>\<open>_update_parameters\<close> does not read, are left out.
\<close>

record execution_record =
  time_stamp :: real
  spread_percentage :: real
  profit_expected :: real
  profit_realized :: "real option"
  slippage :: "real option"
  success :: bool

datatype strategy = CEX_Arbitrage | DEX_Arbitrage | Triangular_Arbitrage | Flash_Loan

definition strategies :: "strategy list" where
  "strategies = [CEX_Arbitrage, DEX_Arbitrage, Triangular_Arbitrage, Flash_Loan]"

record config =
  MIN_PROFIT_THRESHOLD :: real
  SLIPPAGE_TOLERANCE :: real

record adaptive_parameters =
  cfg :: config
  min_profit_threshold :: real
  slippage_tolerance :: real
  execution_history :: "strategy \<Rightarrow> execution_record list"
  last_update_time :: real

definition initial_parameters :: "config \<Rightarrow> real \<Rightarrow> adaptive_parameters" where
  "initial_parameters c now =
     \<lparr>cfg = c, min_profit_threshold = MIN_PROFIT_THRESHOLD c,
      slippage_tolerance = SLIPPAGE_TOLERANCE c, execution_history = (\<lambda>_. []),
      last_update_time = now\<rparr>"

text \<open>\<^verbatim>\<open>sum(xs) / len(xs)\<close>, used on non-empty lists only.\<close>

definition mean :: "real list \<Rightarrow> real" where
  "mean xs = sum_list xs / real (length xs)"

text \<open>\<^verbatim>\<open>history[-20:]\<close> and \<^verbatim>\<open>history[-max_history:]\<close>.\<close>

definition last_n :: "nat \<Rightarrow> 'a list \<Rightarrow> 'a list" where
  "last_n n xs = drop (length xs - n) xs"

definition observed_slippages :: "execution_record list \<Rightarrow> real list" where
  "observed_slippages recent =
     concat (map (\<lambda>h. case slippage h of None \<Rightarrow> [] | Some s \<Rightarrow> [s]) recent)"

definition profit_ratios :: "execution_record list \<Rightarrow> real list" where
  "profit_ratios recent =
     concat (map (\<lambda>h. case profit_realized h of
                         None \<Rightarrow> []
                       | Some r \<Rightarrow> [if profit_expected h > 0 then r / profit_expected h else 0])
                 recent)"

text \<open>
  One pass of the loop over the strategies in \<^verbatim>\<open>_update_parameters\<close>,
  on the three lists \<^verbatim>\<open>all_slippages\<close>, \<^verbatim>\<open>all_success_rates\<close>
  and \<^verbatim>\<open>all_profit_ratios\<close>.
\<close>

definition add_strategy_metrics ::
  "execution_record list \<Rightarrow> real list \<times> real list \<times> real list
     \<Rightarrow> real list \<times> real list \<times> real list" where
  "add_strategy_metrics history acc =
     (case acc of (all_slippages, all_success_rates, all_profit_ratios) \<Rightarrow>
        if history = [] then acc
        else
          (let recent_history = last_n 20 history;
               slippages = observed_slippages recent_history;
               success_count = length (filter success recent_history);
               success_rate = real success_count / real (length recent_history);
               ratios = profit_ratios recent_history
           in ((if slippages \<noteq> [] then all_slippages @ [mean slippages] else all_slippages),
               all_success_rates @ [success_rate],
               (if ratios \<noteq> [] then all_profit_ratios @ [mean ratios] else all_profit_ratios))))"

definition collect_metrics :: "adaptive_parameters \<Rightarrow> real list \<times> real list \<times> real list" where
  "collect_metrics a =
     foldl (\<lambda>acc s. add_strategy_metrics (execution_history a s) acc) ([], [], []) strategies"

definition update_parameters :: "adaptive_parameters \<Rightarrow> adaptive_parameters" where
  "update_parameters a =
     (case collect_metrics a of (all_slippages, all_success_rates, all_profit_ratios) \<Rightarrow>
        if all_slippages \<noteq> [] \<and> all_success_rates \<noteq> [] \<and> all_profit_ratios \<noteq> [] then
          (let avg_slippage = mean all_slippages;
               avg_success_rate = mean all_success_rates;
               avg_profit_ratio = mean all_profit_ratios;
               slippage_factor = 1 + (avg_slippage / 10);
               success_factor = 2 - avg_success_rate;
               profit_factor = 1 + (1 - avg_profit_ratio);
               combined_factor =
                 0.3 * slippage_factor + 0.5 * success_factor + 0.2 * profit_factor;
               base_threshold = MIN_PROFIT_THRESHOLD (cfg a);
               new_threshold = base_threshold * combined_factor;
               min_threshold = base_threshold * 0.5;
               max_threshold = base_threshold * 3.0;
               min_slippage = SLIPPAGE_TOLERANCE (cfg a) * 0.5;
               max_slippage = SLIPPAGE_TOLERANCE (cfg a) * 3.0
           in a\<lparr>min_profit_threshold := max min_threshold (min new_threshold max_threshold),
                slippage_tolerance := max min_slippage (min (avg_slippage * 1.5) max_slippage)\<rparr>)
        else a)"

definition get_min_profit_threshold ::
  "real \<Rightarrow> adaptive_parameters \<Rightarrow> real \<times> adaptive_parameters" where
  "get_min_profit_threshold current_time a =
     (if current_time - last_update_time a > 3600
      then (let a' = (update_parameters a)\<lparr>last_update_time := current_time\<rparr>
            in (min_profit_threshold a', a'))
      else (min_profit_threshold a, a))"

definition update_from_execution ::
  "strategy \<Rightarrow> execution_record \<Rightarrow> adaptive_parameters \<Rightarrow> adaptive_parameters" where
  "update_from_execution s execution a =
     a\<lparr>execution_history :=
          (execution_history a)(s := last_n 100 (execution_history a s @ [execution]))\<rparr>"

text \<open>The calls a program makes on the controller, and their effect in sequence.\<close>

datatype controller_call =
    RecordExecution strategy execution_record
  | GetMinProfitThreshold real
  | UpdateParameters

fun controller_step :: "controller_call \<Rightarrow> adaptive_parameters \<Rightarrow> adaptive_parameters" where
  "controller_step (RecordExecution s execution) a = update_from_execution s execution a"
| "controller_step (GetMinProfitThreshold current_time) a =
     snd (get_min_profit_threshold current_time a)"
| "controller_step UpdateParameters a = update_parameters a"

definition controller_run :: "controller_call list \<Rightarrow> adaptive_parameters \<Rightarrow> adaptive_parameters" where
  "controller_run calls a = foldl (\<lambda>st c. controller_step c st) a calls"

text \<open>
  The recent mean slippage as the recompute takes it: the mean, over the
  strategies that have a slippage among their last 20 records, of the mean of
  those slippages. Likewise for the profit realization ratios.
\<close>

definition recent_slippage_means :: "adaptive_parameters \<Rightarrow> real list" where
  "recent_slippage_means a =
     map (\<lambda>s. mean (observed_slippages (last_n 20 (execution_history a s))))
       (filter (\<lambda>s. observed_slippages (last_n 20 (execution_history a s)) \<noteq> []) strategies)"

definition recent_profit_ratio_means :: "adaptive_parameters \<Rightarrow> real list" where
  "recent_profit_ratio_means a =
     map (\<lambda>s. mean (profit_ratios (last_n 20 (execution_history a s))))
       (filter (\<lambda>s. profit_ratios (last_n 20 (execution_history a s)) \<noteq> []) strategies)"

definition default_config :: config where
  "default_config = \<lparr>MIN_PROFIT_THRESHOLD = 0.1, SLIPPAGE_TOLERANCE = 0.2\<rparr>"

text \<open>A failed execution: a slippage of 1 per cent was observed, no profit was realized.\<close>

definition failed_execution :: execution_record where
  "failed_execution =
     \<lparr>time_stamp = 0, spread_percentage = 1, profit_expected = 5, profit_realized = None,
      slippage = Some 1, success = False\<rparr>"

definition filled_execution :: execution_record where
  "filled_execution =
     \<lparr>time_stamp = 0, spread_percentage = 1, profit_expected = 5, profit_realized = Some 4,
      slippage = Some 0.2, success = True\<rparr>"

section \<open>Theorems: profitability gate\<close>

lemma two_eth_cost:
  "fst (estimate_transaction_cost two_eth_node two_eth_tx cache current_time) = PyDecimal 2"
  by (simp add: estimate_transaction_cost_def two_eth_node_def two_eth_tx_def from_wei_def)

text \<open>
  With a cost that is not zero the margin cannot be applied: the product of the
  \<^verbatim>\<open>Decimal\<close> and \<^verbatim>\<open>1.2\<close> raises, and no verdict is returned.
\<close>

lemma nonzero_cost_raises:
  "is_transaction_profitable two_eth_node two_eth_tx 10 cache current_time = Inl TypeError"
  by (simp add: is_transaction_profitable_def two_eth_cost)

text \<open>
  On the estimation path \<^verbatim>\<open>calculate_profitability\<close> never charges a
  gas cost: the estimate is zero, or its product with the price raises and is
  caught.
\<close>

lemma estimation_path_charges_nothing:
  "calculate_profitability (Some w3) buy_price sell_price quantity (Some tx) None pct
       is_flash_loan provider_ready cache current_time
     = calculate_profitability None buy_price sell_price quantity None None pct
         is_flash_loan provider_ready cache current_time"
proof -
  have "(case times_float (fst (estimate_transaction_cost w3 tx cache current_time)) get_eth_price of
           Inl e \<Rightarrow> Inr 0 | Inr usd \<Rightarrow> Inr usd) = (Inr 0 :: error + real)"
    by (simp add: estimate_transaction_cost_def from_wei_def Let_def
        split: option.splits prod.splits)
  then show ?thesis
    by (cases provider_ready) (simp_all add: calculate_profitability_def Let_def)
qed




text \<open>
  Claim C10: when gas estimation raises, \<^verbatim>\<open>estimate_transaction_cost\<close>
  returns the float 0 and leaves the cache alone, so
  \<^verbatim>\<open>is_transaction_profitable\<close> compares the expected profit with a zero
  cost: it returns a verdict, and reports profitable exactly when the expected
  profit is strictly positive.
\<close>

theorem failed_estimate_costs_nothing:
  assumes "eth_estimate_gas w3 tx = None"
  shows "estimate_transaction_cost w3 tx cache current_time = (PyFloat 0, cache)
         \<and> is_transaction_profitable w3 tx expected_profit_eth cache current_time
             = Inr (0 < expected_profit_eth)"
  using assms by (simp add: estimate_transaction_cost_def is_transaction_profitable_def)

theorem failed_estimate_costs_nothing_witness:
  "eth_estimate_gas failing_node two_eth_tx = None
   \<and> estimate_transaction_cost failing_node two_eth_tx initial_gas_cache 7
       = (PyFloat 0, initial_gas_cache)
   \<and> is_transaction_profitable failing_node two_eth_tx (1 / 1000000) initial_gas_cache 7
       = Inr True"
proof -
  have h: "eth_estimate_gas failing_node two_eth_tx = None"
    by (simp add: failing_node_def)
  show ?thesis
    using h failed_estimate_costs_nothing [OF h, of initial_gas_cache 7 "1 / 1000000"]
    by simp
qed

section \<open>Theorems: gas price oracle\<close>

lemma py_int_mono: "x \<le> y \<Longrightarrow> py_int x \<le> py_int y"
  unfolding py_int_def
  by (auto intro: floor_mono ceiling_mono) (smt (verit) ceiling_le_zero zero_le_floor)

text \<open>The two indices computed through floats are the integer quotients.\<close>

lemma fast_index: "nat (py_int (real n * 0.9)) = (9 * n) div 10"
proof -
  have "real n * 0.9 = real (9 * n) / real 10" by simp
  then have "\<lfloor>real n * 0.9\<rfloor> = int ((9 * n) div 10)"
    by (simp only: floor_divide_of_nat_eq)
  then show ?thesis by (simp add: py_int_def)
qed

lemma economic_index: "nat (py_int (real n * 0.25)) = n div 4"
proof -
  have "real n * 0.25 = real n / real 4" by simp
  then have "\<lfloor>real n * 0.25\<rfloor> = int (n div 4)"
    by (simp only: floor_divide_of_nat_eq)
  then show ?thesis by (simp add: py_int_def)
qed

lemma median_le_fast:
  assumes "sorted xs" "10 \<le> length xs"
  shows "median xs \<le> real_of_int (xs ! ((9 * length xs) div 10))"
proof -
  let ?n = "length xs"
  have upper: "xs ! (?n div 2) \<le> xs ! ((9 * ?n) div 10)"
    using assms by (intro sorted_nth_mono) auto
  have lower: "xs ! (?n div 2 - 1) \<le> xs ! (?n div 2)"
    using assms by (intro sorted_nth_mono) auto
  show ?thesis using upper lower by (auto simp: median_def Let_def)
qed

lemma economic_le_median:
  assumes "sorted xs" "10 \<le> length xs"
  shows "real_of_int (xs ! (length xs div 4)) \<le> median xs"
proof -
  let ?n = "length xs"
  have upper: "xs ! (?n div 4) \<le> xs ! (?n div 2)"
    using assms by (intro sorted_nth_mono) auto
  have lower: "xs ! (?n div 4) \<le> xs ! (?n div 2 - 1)"
    using assms by (intro sorted_nth_mono) auto
  show ?thesis using upper lower by (auto simp: median_def Let_def)
qed

lemma fresh_gas_price_tiers:
  assumes "10 \<le> length gs"
  shows "fresh_gas_price ''economic'' gp gs \<le> fresh_gas_price ''balanced'' gp gs
       \<and> fresh_gas_price ''balanced'' gp gs \<le> fresh_gas_price ''fast'' gp gs"
proof -
  let ?xs = "sort gs"
  have s: "sorted ?xs" and l: "10 \<le> length ?xs" using assms by simp_all
  have e: "py_int (real_of_int (?xs ! (length ?xs div 4)) * 1.05) \<le> py_int (median ?xs * 1.05)"
    using economic_le_median [OF s l] by (intro py_int_mono) simp
  have f: "py_int (median ?xs * 1.05)
             \<le> py_int (real_of_int (?xs ! ((9 * length ?xs) div 10)) * 1.05)"
    using median_le_fast [OF s l] by (intro py_int_mono) simp
  have m: "\<And>a b c::int. a \<le> b \<Longrightarrow> max a c \<le> max b c" by simp
  show ?thesis
    unfolding fresh_gas_price_def Let_def fast_index economic_index
    using m [OF e] m [OF f] assms by simp
qed

lemma sample_node_prices:
  "recent_gas_prices sample_node 100
     = map (\<lambda>i. i * 10 ^ 9) [10, 9, 8, 7, 6, 5, 4, 3, 2, 1, 11]"
  by (simp add: recent_gas_prices_def block_gas_prices_def sample_node_def)

lemma sample_node_fresh:
  "get_optimal_gas_price sample_node ''fast'' initial_gas_cache t
     = (10500000000, \<lparr>last_gas_price = Some 10500000000, last_gas_update = t\<rparr>)"
  "get_optimal_gas_price sample_node ''balanced'' initial_gas_cache t
     = (6300000000, \<lparr>last_gas_price = Some 6300000000, last_gas_update = t\<rparr>)"
  "get_optimal_gas_price sample_node ''economic'' initial_gas_cache t
     = (3150000000, \<lparr>last_gas_price = Some 3150000000, last_gas_update = t\<rparr>)"
proof -
  have reads: "eth_gas_price sample_node = Some (5 * 10 ^ 9)"
    "eth_block_number sample_node = Some 100"
    by (simp_all add: sample_node_def)
  show "get_optimal_gas_price sample_node ''fast'' initial_gas_cache t
     = (10500000000, \<lparr>last_gas_price = Some 10500000000, last_gas_update = t\<rparr>)"
    by (simp add: get_optimal_gas_price_def refresh_gas_price_def initial_gas_cache_def reads
        sample_node_prices fresh_gas_price_def py_int_def min_gas_price_def)
  show "get_optimal_gas_price sample_node ''balanced'' initial_gas_cache t
     = (6300000000, \<lparr>last_gas_price = Some 6300000000, last_gas_update = t\<rparr>)"
    by (simp add: get_optimal_gas_price_def refresh_gas_price_def initial_gas_cache_def reads
        sample_node_prices fresh_gas_price_def py_int_def min_gas_price_def median_def)
  show "get_optimal_gas_price sample_node ''economic'' initial_gas_cache t
     = (3150000000, \<lparr>last_gas_price = Some 3150000000, last_gas_update = t\<rparr>)"
    by (simp add: get_optimal_gas_price_def refresh_gas_price_def initial_gas_cache_def reads
        sample_node_prices fresh_gas_price_def py_int_def min_gas_price_def)
qed

text \<open>
  Within the TTL the cached value is returned as it is, the cache is left as it
  is, and neither the node nor the requested tier is looked at.
\<close>

lemma live_cache_is_returned:
  assumes "cache_is_live cache t"
  shows "get_optimal_gas_price w3 strategy cache t = (the (last_gas_price cache), cache)"
  using assms by (auto simp: get_optimal_gas_price_def cache_is_live_def split: option.splits)

lemma cold_cache_is_refreshed:
  assumes "\<not> cache_is_live cache t"
  shows "get_optimal_gas_price w3 strategy cache t = refresh_gas_price w3 strategy cache t"
  using assms by (auto simp: get_optimal_gas_price_def cache_is_live_def split: option.splits)

text \<open>
  Claim C8: with a cold cache and at least ten fee samples from the last ten
  blocks, the estimate for \<open>fast\<close> is at least the estimate for
  \<open>balanced\<close>, which is at least the estimate for \<open>economic\<close>; the
  estimates are the values returned, after the 5 per cent buffer (which the code
  applies to every tier) and the floor of 1 Gwei.
\<close>

theorem cold_cache_tier_order:
  assumes "\<not> cache_is_live cache t"
    and "eth_block_number w3 = Some latest"
    and "10 \<le> length (recent_gas_prices w3 latest)"
  shows "fst (get_optimal_gas_price w3 ''economic'' cache t)
           \<le> fst (get_optimal_gas_price w3 ''balanced'' cache t)
         \<and> fst (get_optimal_gas_price w3 ''balanced'' cache t)
           \<le> fst (get_optimal_gas_price w3 ''fast'' cache t)"
  using assms(2) fresh_gas_price_tiers [OF assms(3)]
  by (cases "eth_gas_price w3")
     (simp_all add: cold_cache_is_refreshed [OF assms(1)] refresh_gas_price_def Let_def)

theorem cold_cache_tier_order_witness:
  "\<not> cache_is_live initial_gas_cache 100
   \<and> eth_block_number sample_node = Some 100
   \<and> 10 \<le> length (recent_gas_prices sample_node 100)
   \<and> fst (get_optimal_gas_price sample_node ''economic'' initial_gas_cache 100) = 3150000000
   \<and> fst (get_optimal_gas_price sample_node ''balanced'' initial_gas_cache 100) = 6300000000
   \<and> fst (get_optimal_gas_price sample_node ''fast'' initial_gas_cache 100) = 10500000000
   \<and> fst (get_optimal_gas_price sample_node ''economic'' initial_gas_cache 100)
       \<le> fst (get_optimal_gas_price sample_node ''balanced'' initial_gas_cache 100)
   \<and> fst (get_optimal_gas_price sample_node ''balanced'' initial_gas_cache 100)
       \<le> fst (get_optimal_gas_price sample_node ''fast'' initial_gas_cache 100)"
proof -
  have cold: "\<not> cache_is_live initial_gas_cache 100"
    by (simp add: cache_is_live_def initial_gas_cache_def)
  have latest: "eth_block_number sample_node = Some 100"
    by (simp add: sample_node_def)
  have enough: "10 \<le> length (recent_gas_prices sample_node 100)"
    by (simp add: sample_node_prices)
  show ?thesis
    using cold latest enough cold_cache_tier_order [OF cold latest enough]
    by (simp add: sample_node_fresh)
qed

text \<open>
  Claim C3 at a failing input. The cache is one slot for all tiers: a
  \<open>fast\<close> request at time 100 stores 10.5 Gwei, and an \<open>economic\<close>
  request ten seconds later is served those 10.5 Gwei, although the
  \<open>economic\<close> estimate of the same samples is 3.15 Gwei.
\<close>

theorem cache_serves_other_tier:
  "get_optimal_gas_price sample_node ''economic''
      (snd (get_optimal_gas_price sample_node ''fast'' initial_gas_cache 100)) 110
     = (10500000000, \<lparr>last_gas_price = Some 10500000000, last_gas_update = 100\<rparr>)
   \<and> fst (get_optimal_gas_price sample_node ''economic'' initial_gas_cache 110) = 3150000000"
  by (simp add: sample_node_fresh live_cache_is_returned cache_is_live_def
      GAS_PRICE_CACHE_TTL_def)

section \<open>Theorems: event bus\<close>

lemma count_list_distinct:
  "distinct xs \<Longrightarrow> count_list xs x = (if x \<in> set xs then 1 else 0)"
  by (induction xs) auto

text \<open>Subscribing a callback twice leaves the bus as subscribing it once does.\<close>

lemma subscribe_twice: "subscribe t h (subscribe t h subs) = subscribe t h subs"
  by (auto simp: subscribe_def split: option.splits)

lemma distinct_handlers_call:
  assumes "distinct_handlers subs"
  shows "distinct_handlers (apply_bus_call c subs)"
proof (cases c)
  case (Subscribe t h)
  then show ?thesis
    using assms
    by (auto simp: distinct_handlers_def subscribe_def ran_def split: option.splits if_splits)
next
  case (Unsubscribe t h)
  then show ?thesis
    using assms
    by (auto simp: distinct_handlers_def unsubscribe_def ran_def split: option.splits if_splits)
next
  case (ClearSubscribers t)
  then show ?thesis
    using assms
    by (auto simp: distinct_handlers_def clear_subscribers_def ran_def
        split: option.splits if_splits)
qed

lemma distinct_handlers_foldl:
  "distinct_handlers subs \<Longrightarrow> distinct_handlers (foldl (\<lambda>s c. apply_bus_call c s) subs calls)"
  by (induction calls arbitrary: subs) (simp_all add: distinct_handlers_call)

lemma distinct_handlers_bus_after: "distinct_handlers (bus_after calls)"
  unfolding bus_after_def
  by (rule distinct_handlers_foldl) (simp add: distinct_handlers_def)

text \<open>
  When no callback calls the bus, the loop calls every callback from index
  \<open>i\<close> on once, given fuel for each: the counters grow by the number of
  times each callback stands in the rest of the list.
\<close>

lemma quiet_publish_loop:
  assumes quiet: "\<And>cb d w. fst (snd (run cb d w)) = []"
  shows "length (walked p) - i < fuel \<Longrightarrow>
         \<exists>w' errs. publish_loop fuel (counting run) t d i p
           = Some (p\<lparr>world := (w', \<lambda>x. snd (world p) x + count_list (drop i (walked p)) x),
                    handler_errors := errs\<rparr>)"
proof (induction fuel arbitrary: i p)
  case 0
  then show ?case by simp
next
  case (Suc fuel)
  show ?case
  proof (cases "i < length (walked p)")
    case False
    then have "drop i (walked p) = []" by simp
    then have same: "p\<lparr>world := (fst (world p),
                               \<lambda>x. snd (world p) x + count_list (drop i (walked p)) x),
                     handler_errors := handler_errors p\<rparr> = p"
      by simp
    have "publish_loop (Suc fuel) (counting run) t d i p = Some p"
      using False by simp
    then have "publish_loop (Suc fuel) (counting run) t d i p
        = Some (p\<lparr>world := (fst (world p),
                               \<lambda>x. snd (world p) x + count_list (drop i (walked p)) x),
                     handler_errors := handler_errors p\<rparr>)"
      by (simp only: same)
    then show ?thesis by (intro exI)
  next
    case True
    let ?cb = "walked p ! i"
    obtain w1 calls raised where r: "run ?cb d (fst (world p)) = (w1, calls, raised)"
      by (cases "run ?cb d (fst (world p))") auto
    have "calls = []" using quiet [of ?cb d "fst (world p)"] r by simp
    let ?errs = "case raised of None \<Rightarrow> handler_errors p
                 | Some e \<Rightarrow> handler_errors p @ [''Error in event handler for '' @ t @ '': '' @ e]"
    let ?p1 = "p\<lparr>world := (w1, (snd (world p))(?cb := snd (world p) ?cb + 1)),
                 handler_errors := ?errs\<rparr>"
    have step: "publish_loop (Suc fuel) (counting run) t d i p
                  = publish_loop fuel (counting run) t d (Suc i) ?p1"
      using True r \<open>calls = []\<close> by (simp add: counting_def)
    have "length (walked ?p1) - Suc i < fuel"
      using Suc.prems True by simp
    from Suc.IH [OF this] obtain w' errs where
      rest: "publish_loop fuel (counting run) t d (Suc i) ?p1
           = Some (?p1\<lparr>world := (w', \<lambda>x. snd (world ?p1) x
                                          + count_list (drop (Suc i) (walked ?p1)) x),
                       handler_errors := errs\<rparr>)"
      by blast
    have split: "drop i (walked p) = ?cb # drop (Suc i) (walked p)"
      using True by (simp add: Cons_nth_drop_Suc)
    have counts: "(\<lambda>x. snd (world ?p1) x + count_list (drop (Suc i) (walked ?p1)) x)
                = (\<lambda>x. snd (world p) x + count_list (drop i (walked p)) x)"
      by (rule ext) (simp add: split)
    show ?thesis
      unfolding step rest counts by (intro exI) simp
  qed
qed

text \<open>
  So as long as no callback calls the bus during the publish, a callback
  subscribed twice is called exactly once by a publish with fuel for every
  callback of the event type.
\<close>

lemma quiet_publish_calls_once:
  assumes quiet: "\<And>cb d w. fst (snd (run cb d w)) = []"
    and handlers: "subscribe t h (subscribe t h (bus_after calls)) t = Some hs"
    and fuel: "length hs < fuel"
  shows "\<exists>w' subs' errs.
           publish fuel (counting run) (subscribe t h (subscribe t h (bus_after calls))) t d (w, n)
             = Some ((w', \<lambda>x. n x + count_list hs x), subs', errs)
           \<and> count_list hs h = 1"
proof -
  let ?bus = "subscribe t h (subscribe t h (bus_after calls))"
  let ?p = "\<lparr>world = (w, n), registry = ?bus, walked = hs, attached = True,
             handler_errors = []\<rparr>"
  have "length (walked ?p) - 0 < fuel" using fuel by simp
  from quiet_publish_loop [of run ?p 0 fuel t d, OF quiet this]
  obtain w' errs where
    loop: "publish_loop fuel (counting run) t d 0 ?p
             = Some (?p\<lparr>world := (w', \<lambda>x. n x + count_list hs x), handler_errors := errs\<rparr>)"
    by auto
  have bus: "?bus = subscribe t h (bus_after calls)"
    by (rule subscribe_twice)
  have "distinct_handlers (subscribe t h (bus_after calls))"
    using distinct_handlers_call [OF distinct_handlers_bus_after, of "Subscribe t h" calls]
    by simp
  then have "distinct hs"
    using handlers unfolding bus by (auto simp: distinct_handlers_def ran_def)
  moreover have "h \<in> set hs"
    using handlers unfolding bus by (auto simp: subscribe_def split: option.splits if_splits)
  ultimately have once: "count_list hs h = 1"
    by (simp add: count_list_distinct)
  have "publish fuel (counting run) ?bus t d (w, n)
          = Some ((w', \<lambda>x. n x + count_list hs x), ?bus, errs)"
    by (simp only: publish_def handlers option.case loop) simp
  then show ?thesis
    using once by blast
qed


section \<open>Theorems: reconnect loop\<close>

lemma connect_and_subscribe_stopped:
  "\<not> running (mon c) \<Longrightarrow> connect_and_subscribe attempts c = c"
  by (cases attempts) simp_all

lemma connect_and_subscribe_append:
  "connect_and_subscribe (xs @ ys) c = connect_and_subscribe ys (connect_and_subscribe xs c)"
  by (induction xs arbitrary: c) (simp_all add: connect_and_subscribe_stopped)

lemma handle_websocket_message_quiet:
  "published (handle_websocket_message m s) = published s
   \<and> running (handle_websocket_message m s) = running s"
  by (cases m) simp_all

lemma handle_messages_quiet:
  "published (foldl (\<lambda>st m. handle_websocket_message m st) s ms) = published s
   \<and> running (foldl (\<lambda>st m. handle_websocket_message m st) s ms) = running s"
  by (induction ms arbitrary: s) (simp_all add: handle_websocket_message_quiet)

lemma attempt_step_published: "published (mon (attempt_step a c)) = published (mon c)"
proof (cases a)
  case (Subscribed messages ending)
  then show ?thesis
    by (cases ending)
      (simp_all add: connection_failure_def unexpected_failure_def Let_def handle_messages_quiet)
qed (simp_all add: connection_failure_def unexpected_failure_def Let_def)

lemma connect_and_subscribe_published:
  "published (mon (connect_and_subscribe attempts c)) = published (mon c)"
  by (induction attempts arbitrary: c) (simp_all add: attempt_step_published)

lemma doubled_delay: "min (min (d * 2 ^ j) 60 * 2) 60 = min (d * 2 ^ Suc j) (60::nat)"
  by (simp add: min_def)

text \<open>
  The state after \<open>n\<close> failures in a row with one of the exceptions of the
  first handler (\<^verbatim>\<open>ConnectionClosed\<close>, \<^verbatim>\<open>InvalidStatusCode\<close>,
  \<^verbatim>\<open>ConnectionRefusedError\<close>), as long as the retry counter stays
  within the maximum.
\<close>

lemma failures_in_a_row:
  assumes "running (mon c)" and "retry_count c + n \<le> max_retries"
  shows "running (mon (connect_and_subscribe (replicate n ConnectionError) c))
       \<and> retry_count (connect_and_subscribe (replicate n ConnectionError) c) = retry_count c + n
       \<and> retry_delay (connect_and_subscribe (replicate n ConnectionError) c)
           = (if n = 0 then retry_delay c else min (retry_delay c * 2 ^ n) 60)
       \<and> sleeps (connect_and_subscribe (replicate n ConnectionError) c)
           = sleeps c @ map (\<lambda>j. if j = 0 then retry_delay c else min (retry_delay c * 2 ^ j) 60) [0..<n]"
  using assms
proof (induction n)
  case 0
  then show ?case by simp
next
  case (Suc n)
  let ?c = "connect_and_subscribe (replicate n ConnectionError) c"
  have ih: "running (mon ?c)" "retry_count ?c = retry_count c + n"
    "retry_delay ?c = (if n = 0 then retry_delay c else min (retry_delay c * 2 ^ n) 60)"
    "sleeps ?c = sleeps c
       @ map (\<lambda>j. if j = 0 then retry_delay c else min (retry_delay c * 2 ^ j) 60) [0..<n]"
    using Suc by simp_all
  have "replicate (Suc n) ConnectionError = replicate n ConnectionError @ [ConnectionError :: 'a attempt]"
    by (simp add: replicate_append_same)
  then have split: "connect_and_subscribe (replicate (Suc n) ConnectionError) c
                 = connection_failure ?c"
    using ih(1) by (simp only: connect_and_subscribe_append) simp
  have room: "\<not> retry_count ?c + 1 > max_retries"
    using Suc.prems ih(2) by simp
  show ?case
    unfolding split using ih room
    by (simp add: connection_failure_def Let_def doubled_delay)
qed

text \<open>
  A failure with any other exception reaches the second handler: the loop logs
  it and waits the current delay, and neither counts it nor doubles the delay.
\<close>

lemma unexpected_failures_in_a_row:
  assumes "running (mon c)"
  shows "running (mon (connect_and_subscribe (replicate n UnexpectedError) c))
       \<and> retry_count (connect_and_subscribe (replicate n UnexpectedError) c) = retry_count c
       \<and> retry_delay (connect_and_subscribe (replicate n UnexpectedError) c) = retry_delay c
       \<and> sleeps (connect_and_subscribe (replicate n UnexpectedError) c)
           = sleeps c @ replicate n (retry_delay c)"
  using assms
proof (induction n)
  case 0
  then show ?case by simp
next
  case (Suc n)
  let ?c = "connect_and_subscribe (replicate n UnexpectedError) c"
  have ih: "running (mon ?c)" "retry_count ?c = retry_count c" "retry_delay ?c = retry_delay c"
    "sleeps ?c = sleeps c @ replicate n (retry_delay c)"
    using Suc by simp_all
  have "replicate (Suc n) UnexpectedError = replicate n UnexpectedError @ [UnexpectedError :: 'a attempt]"
    by (simp add: replicate_append_same)
  then have split: "connect_and_subscribe (replicate (Suc n) UnexpectedError) c
                 = unexpected_failure ?c"
    using ih(1) by (simp only: connect_and_subscribe_append) simp
  show ?case
    unfolding split using ih
    by (simp add: unexpected_failure_def replicate_append_same)
qed

text \<open>
  Claim C5, as stated, fails at \<open>N = 1\<close>: after the first failure, a
  \<^verbatim>\<open>ConnectionRefusedError\<close> say, the loop waits 5 seconds before the
  second attempt, not \<open>min (5 * 2^1) 60 = 10\<close>.
\<close>

theorem first_wait_is_base:
  "sleeps (connect_and_subscribe [ConnectionError] (initial_connector (initial_monitor :: nat monitor)))
     = [5]
   \<and> min (5 * 2 ^ 1) 60 = (10::nat)"
  by (simp add: initial_connector_def initial_monitor_def connection_failure_def max_retries_def)

text \<open>
  Claim C5, amended: counted from the start of the reconnect loop, after \<open>N\<close>
  failures in a row (\<open>1 \<le> N \<le> 10\<close>) that each raise
  \<^verbatim>\<open>ConnectionClosed\<close>, \<^verbatim>\<open>InvalidStatusCode\<close> or
  \<^verbatim>\<open>ConnectionRefusedError\<close>, the loop has waited \<open>N\<close> times, and
  the wait before attempt \<open>N + 1\<close> is \<open>min (5 * 2^(N - 1)) 60\<close> seconds.
  A failure with any other exception does not take part in the backoff: after
  \<open>k\<close> of them in a row the loop has waited the base delay of 5 seconds
  \<open>k\<close> times.
\<close>

theorem backoff_wait:
  assumes "running m" and "1 \<le> n" and "n \<le> max_retries"
  shows "length (sleeps (connect_and_subscribe (replicate n ConnectionError) (initial_connector m))) = n
       \<and> sleeps (connect_and_subscribe (replicate n ConnectionError) (initial_connector m)) ! (n - 1)
           = min (5 * 2 ^ (n - 1)) 60
       \<and> sleeps (connect_and_subscribe (replicate k UnexpectedError) (initial_connector m))
           = replicate k 5"
proof -
  let ?c = "initial_connector m"
  have "running (mon ?c)" and "retry_count ?c + n \<le> max_retries"
    using assms by (simp_all add: initial_connector_def)
  from failures_in_a_row [OF this]
  have waits: "sleeps (connect_and_subscribe (replicate n ConnectionError) ?c)
          = map (\<lambda>j. if j = 0 then 5 else min (5 * 2 ^ j) 60) [0..<n]"
    by (simp add: initial_connector_def)
  have "n - 1 < n" using assms(2) by simp
  then have "map (\<lambda>j. if j = 0 then 5 else min (5 * 2 ^ j) 60) [0..<n] ! (n - 1)
          = min (5 * 2 ^ (n - 1)) (60::nat)"
    by (simp del: upt_Suc)
  moreover have "sleeps (connect_and_subscribe (replicate k UnexpectedError) ?c) = replicate k 5"
    using unexpected_failures_in_a_row [OF \<open>running (mon ?c)\<close>, of k]
    by (simp add: initial_connector_def)
  ultimately show ?thesis using waits by simp
qed

theorem backoff_wait_witness:
  "running (initial_monitor :: nat monitor) \<and> (1::nat) \<le> 5 \<and> 5 \<le> max_retries
   \<and> sleeps (connect_and_subscribe (replicate 5 ConnectionError)
        (initial_connector (initial_monitor :: nat monitor))) ! 4 = 60
   \<and> sleeps (connect_and_subscribe (replicate 3 UnexpectedError)
        (initial_connector (initial_monitor :: nat monitor))) = [5, 5, 5]"
proof -
  have r: "running (initial_monitor :: nat monitor)" by (simp add: initial_monitor_def)
  have b: "5 \<le> max_retries" by (simp add: max_retries_def)
  have three: "replicate 3 (5::nat) = [5, 5, 5]" by (simp add: numeral_3_eq_3)
  show ?thesis
    using r b backoff_wait [OF r _ b, of 3] by (simp add: three)
qed

text \<open>
  Claim C6, as stated, fails: after eleven failures in a row with an exception
  of the first handler the monitor has stopped, and nothing has been published
  on the event bus.
\<close>

theorem exhaustion_publishes_nothing:
  "\<not> running (mon (connect_and_subscribe (replicate 11 ConnectionError)
          (initial_connector (initial_monitor :: nat monitor))))
   \<and> published (mon (connect_and_subscribe (replicate 11 ConnectionError)
          (initial_connector (initial_monitor :: nat monitor)))) = []"
proof -
  let ?start = "initial_connector (initial_monitor :: nat monitor)"
  let ?c = "connect_and_subscribe (replicate 10 ConnectionError) ?start"
  have start: "running (mon ?start)" "retry_count ?start = 0" "published (mon ?start) = []"
    by (simp_all add: initial_connector_def initial_monitor_def)
  have "retry_count ?start + 10 \<le> max_retries"
    by (simp add: start(2) max_retries_def)
  from failures_in_a_row [OF start(1) this]
  have ten: "running (mon ?c)" "retry_count ?c = 10"
    by (simp_all add: start(2))
  have "replicate (Suc 10) ConnectionError = replicate 10 ConnectionError @ [ConnectionError :: nat attempt]"
    by (simp only: replicate_append_same replicate_Suc)
  moreover have "(11::nat) = Suc 10" by simp
  ultimately have "replicate 11 ConnectionError
      = replicate 10 ConnectionError @ [ConnectionError :: nat attempt]"
    by (simp only:)
  then have eleven: "connect_and_subscribe (replicate 11 ConnectionError) ?start = connection_failure ?c"
    using ten(1) by (simp only: connect_and_subscribe_append) simp
  have stopped: "\<not> running (mon (connection_failure ?c))"
    using ten(2) by (simp add: connection_failure_def max_retries_def)
  have "published (mon (connect_and_subscribe (replicate 11 ConnectionError) ?start)) = []"
    by (simp only: connect_and_subscribe_published start(3))
  then show ?thesis
    using stopped by (simp only: eleven) simp
qed

text \<open>
  Claim C6, amended: when the failures in a row that raise
  \<^verbatim>\<open>ConnectionClosed\<close>, \<^verbatim>\<open>InvalidStatusCode\<close> or
  \<^verbatim>\<open>ConnectionRefusedError\<close> exceed the maximum retry count of 10,
  the monitor clears \<open>running\<close>, logs the exhaustion as an error and leaves
  the reconnect loop for good, whatever the connection would do next; the loop
  publishes no event on the event bus, neither then nor at any other time.
  Failures with any other exception are not counted: however many follow one
  another, the retry counter keeps its value and the monitor keeps running.
\<close>

theorem exhaustion_stops_monitor:
  assumes "running (mon c)" and "retry_count c \<le> max_retries"
  shows "\<not> running (mon (connect_and_subscribe
              (replicate (max_retries + 1 - retry_count c) ConnectionError @ rest) c))
       \<and> last (log (mon (connect_and_subscribe
              (replicate (max_retries + 1 - retry_count c) ConnectionError @ rest) c)))
           = ''Max retries (10) exceeded. Stopping mempool monitor.''
       \<and> connect_and_subscribe (replicate (max_retries + 1 - retry_count c) ConnectionError @ rest) c
           = connect_and_subscribe (replicate (max_retries + 1 - retry_count c) ConnectionError) c
       \<and> published (mon (connect_and_subscribe attempts c)) = published (mon c)
       \<and> running (mon (connect_and_subscribe (replicate k UnexpectedError) c))
       \<and> retry_count (connect_and_subscribe (replicate k UnexpectedError) c) = retry_count c"
proof -
  let ?n = "max_retries - retry_count c"
  let ?c = "connect_and_subscribe (replicate ?n ConnectionError) c"
  have "retry_count c + ?n \<le> max_retries" using assms(2) by simp
  from failures_in_a_row [OF assms(1) this]
  have before: "running (mon ?c)" "retry_count ?c = max_retries"
    using assms(2) by simp_all
  have "max_retries + 1 - retry_count c = Suc ?n" using assms(2) by simp
  then have "replicate (max_retries + 1 - retry_count c) ConnectionError
               = replicate ?n ConnectionError @ [ConnectionError :: 'a attempt]"
    by (simp add: replicate_append_same)
  then have last_step:
    "connect_and_subscribe (replicate (max_retries + 1 - retry_count c) ConnectionError) c
       = connection_failure ?c"
    using before(1) by (simp only: connect_and_subscribe_append) simp
  have stopped: "\<not> running (mon (connection_failure ?c))"
    and logged: "last (log (mon (connection_failure ?c)))
                   = ''Max retries (10) exceeded. Stopping mempool monitor.''"
    using before(2) by (simp_all add: connection_failure_def)
  have ignored:
    "connect_and_subscribe (replicate (max_retries + 1 - retry_count c) ConnectionError @ rest) c
       = connection_failure ?c"
    using connect_and_subscribe_stopped [OF stopped, of rest]
    by (simp only: connect_and_subscribe_append last_step)
  have uncounted: "running (mon (connect_and_subscribe (replicate k UnexpectedError) c))"
    "retry_count (connect_and_subscribe (replicate k UnexpectedError) c) = retry_count c"
    using unexpected_failures_in_a_row [OF assms(1), of k] by simp_all
  show ?thesis
    using stopped logged uncounted
    by (simp only: ignored last_step connect_and_subscribe_published) simp
qed

theorem exhaustion_stops_monitor_witness:
  "running (mon (initial_connector (initial_monitor :: nat monitor)))
   \<and> retry_count (initial_connector (initial_monitor :: nat monitor)) \<le> max_retries
   \<and> \<not> running (mon (connect_and_subscribe
          (replicate 11 ConnectionError @ [Subscribed [Notification 7] ClosedInRecv])
          (initial_connector (initial_monitor :: nat monitor))))
   \<and> published (mon (connect_and_subscribe
          (replicate 11 ConnectionError @ [Subscribed [Notification 7] ClosedInRecv])
          (initial_connector (initial_monitor :: nat monitor)))) = []
   \<and> running (mon (connect_and_subscribe (replicate 50 UnexpectedError)
          (initial_connector (initial_monitor :: nat monitor))))"
proof -
  let ?start = "initial_connector (initial_monitor :: nat monitor)"
  have r: "running (mon ?start)" by (simp add: initial_connector_def initial_monitor_def)
  have k: "retry_count ?start \<le> max_retries" by (simp add: initial_connector_def)
  have n: "max_retries + 1 - retry_count ?start = 11"
    by (simp add: initial_connector_def max_retries_def)
  have p: "published (mon ?start) = []" by (simp add: initial_connector_def initial_monitor_def)
  note result =
    exhaustion_stops_monitor [OF r k,
      of "[Subscribed [Notification 7] ClosedInRecv]"
         "replicate 11 ConnectionError @ [Subscribed [Notification 7] ClosedInRecv]" 50,
      unfolded n]
  have stopped: "\<not> running (mon (connect_and_subscribe
          (replicate 11 ConnectionError @ [Subscribed [Notification 7] ClosedInRecv]) ?start))"
    using result by blast
  have quiet: "published (mon (connect_and_subscribe
          (replicate 11 ConnectionError @ [Subscribed [Notification 7] ClosedInRecv]) ?start))
        = published (mon ?start)"
    using result by blast
  have going: "running (mon (connect_and_subscribe (replicate 50 UnexpectedError) ?start))"
    using result by blast
  show ?thesis
    using r k stopped quiet p going by simp
qed

section \<open>Theorems: feed handler and classification loop\<close>

lemma handle_processed [simp]:
  "processed_txs (handle_websocket_message m s) = processed_txs s"
  by (cases m) simp_all

lemma handle_published [simp]:
  "published (handle_websocket_message m s) = published s"
  by (cases m) simp_all

lemma handle_pending:
  assumes "distinct (pending_txs s)" "set (pending_txs s) \<inter> processed_txs s = {}"
    "set (pending_txs s) \<subseteq> H" "set (message_hashes m) \<subseteq> H"
  shows "distinct (pending_txs (handle_websocket_message m s))
       \<and> set (pending_txs (handle_websocket_message m s)) \<inter> processed_txs s = {}
       \<and> set (pending_txs (handle_websocket_message m s)) \<subseteq> H"
  using assms by (cases m) auto

lemma arrivals_processed [simp]:
  "processed_txs (foldl (\<lambda>st m. handle_websocket_message m st) s ms) = processed_txs s"
  by (induction ms arbitrary: s) simp_all

lemma arrivals_published [simp]:
  "published (foldl (\<lambda>st m. handle_websocket_message m st) s ms) = published s"
  by (induction ms arbitrary: s) simp_all

lemma arrivals_pending:
  assumes "distinct (pending_txs s)" "set (pending_txs s) \<inter> processed_txs s = {}"
    "set (pending_txs s) \<subseteq> H" "set (concat (map message_hashes ms)) \<subseteq> H"
  shows "distinct (pending_txs (foldl (\<lambda>st m. handle_websocket_message m st) s ms))
       \<and> set (pending_txs (foldl (\<lambda>st m. handle_websocket_message m st) s ms)) \<inter> processed_txs s = {}
       \<and> set (pending_txs (foldl (\<lambda>st m. handle_websocket_message m st) s ms)) \<subseteq> H"
  using assms
proof (induction ms arbitrary: s)
  case Nil
  then show ?case by simp
next
  case (Cons m ms)
  have step: "distinct (pending_txs (handle_websocket_message m s))"
    "set (pending_txs (handle_websocket_message m s)) \<inter> processed_txs (handle_websocket_message m s) = {}"
    "set (pending_txs (handle_websocket_message m s)) \<subseteq> H"
    using handle_pending [of s H m] Cons.prems by simp_all
  have rest: "set (concat (map message_hashes ms)) \<subseteq> H" using Cons.prems by simp
  show ?case
    using Cons.IH [OF step rest] by simp
qed

lemma handle_safe:
  assumes "dedup_safe H s" "set (message_hashes m) \<subseteq> H"
  shows "dedup_safe H (handle_websocket_message m s)"
  using assms handle_pending [of s H m]
  by (simp add: dedup_safe_def published_hashes_def)

lemma batch_safe:
  assumes safe: "dedup_safe H s" and arr: "set (concat (map message_hashes arrivals)) \<subseteq> H"
    and fin: "finite H" and small: "card H \<le> 10000"
  shows "dedup_safe H (process_batch set_order interesting arrivals s)"
proof (cases "take 20 (pending_txs s) = []")
  case True
  then show ?thesis using safe by (simp add: process_batch_def)
next
  case False
  let ?batch = "take 20 (pending_txs s)"
  let ?hits = "filter interesting ?batch"
  let ?s1 = "s\<lparr>interesting_tx_count := interesting_tx_count s + length ?hits,
                published := published s @ map (\<lambda>h. (''interesting_transaction'', h)) ?hits\<rparr>"
  let ?s2 = "foldl (\<lambda>st m. handle_websocket_message m st) ?s1 arrivals"
  let ?s3 = "?s2\<lparr>pending_txs := filter (\<lambda>h. h \<notin> set ?batch) (pending_txs ?s2),
                  processed_txs := processed_txs ?s2 \<union> set ?batch\<rparr>"
  have batch: "distinct ?batch" "set ?batch \<subseteq> set (pending_txs s)"
    using safe by (auto simp: dedup_safe_def dest: in_set_takeD)
  have fresh: "set ?batch \<inter> processed_txs s = {}" "set ?batch \<subseteq> H"
    using batch(2) safe by (auto simp: dedup_safe_def)
  have pend: "distinct (pending_txs ?s2)" "set (pending_txs ?s2) \<inter> processed_txs s = {}"
    "set (pending_txs ?s2) \<subseteq> H"
    using arrivals_pending [of ?s1 H arrivals] safe arr by (simp_all add: dedup_safe_def)
  have pub: "published_hashes ?s3 = published_hashes s @ ?hits"
    by (simp add: published_hashes_def comp_def)
  have inH: "processed_txs ?s3 \<subseteq> H"
    using safe fresh(2) by (simp add: dedup_safe_def)
  then have "card (processed_txs ?s3) \<le> card H"
    using fin by (intro card_mono)
  then have keep: "\<not> card (processed_txs ?s3) > 10000"
    using small by simp
  have result: "process_batch set_order interesting arrivals s = ?s3"
    using False keep unfolding process_batch_def Let_def by (simp only: if_False)
  have "dedup_safe H ?s3"
    unfolding dedup_safe_def pub
    using pend safe fresh batch inH by (auto simp: dedup_safe_def)
  then show ?thesis by (simp only: result)
qed

lemma run_safe:
  assumes "dedup_safe H s" "set (feed_hashes events) \<subseteq> H" "finite H" "card H \<le> 10000"
  shows "dedup_safe H (monitor_run set_order events s)"
  using assms(1,2)
proof (induction events arbitrary: s)
  case Nil
  then show ?case by (simp add: monitor_run_def)
next
  case (Cons e events)
  have here: "set (event_hashes e) \<subseteq> H" and later: "set (feed_hashes events) \<subseteq> H"
    using Cons.prems(2) by (simp_all add: feed_hashes_def)
  have "dedup_safe H (monitor_step set_order e s)"
  proof (cases e)
    case (Message m)
    then show ?thesis using handle_safe [OF Cons.prems(1)] here by simp
  next
    case (Batch interesting arrivals)
    then show ?thesis
      using batch_safe [OF Cons.prems(1) _ assms(3,4)] here by simp
  qed
  from Cons.IH [OF this later] show ?case by (simp add: monitor_run_def)
qed

lemma batch_bounded:
  assumes "dedup_bounded s"
  shows "dedup_bounded (process_batch set_order interesting arrivals s)"
proof -
  have trimmed: "card (set (drop (length l - 5000) l)) \<le> 10000" for l :: "'a list"
  proof -
    have "card (set (drop (length l - 5000) l)) \<le> length (drop (length l - 5000) l)"
      by (rule card_length)
    then show ?thesis by simp
  qed
  show ?thesis
    using assms trimmed
    by (simp add: process_batch_def Let_def dedup_bounded_def)
qed

lemma run_bounded:
  assumes "dedup_bounded s"
  shows "dedup_bounded (monitor_run set_order events s)"
  using assms
proof (induction events arbitrary: s)
  case Nil
  then show ?case by (simp add: monitor_run_def)
next
  case (Cons e events)
  have "dedup_bounded (monitor_step set_order e s)"
    using Cons.prems by (cases e) (simp_all add: batch_bounded, simp add: dedup_bounded_def)
  from Cons.IH [OF this] show ?case by (simp add: monitor_run_def)
qed


lemma monitor_run_append:
  "monitor_run set_order (xs @ ys) s = monitor_run set_order ys (monitor_run set_order xs s)"
  by (simp add: monitor_run_def)

lemma one_by_one_Suc:
  "one_by_one (Suc n) = one_by_one n @ [Message (Notification n), Batch (\<lambda>_. True) []]"
  by (simp add: one_by_one_def)

text \<open>One fresh hash, delivered and processed alone, while the dedup set has room.\<close>

lemma fresh_hash_round:
  assumes "n < 10000"
  shows "monitor_run set_order [Message (Notification n), Batch (\<lambda>_. True) []]
           \<lparr>pending_txs = [], processed_txs = {0..<n}, running = True, tx_count = n,
            interesting_tx_count = n,
            published = map (\<lambda>i. (''interesting_transaction'', i)) [0..<n], log = []\<rparr>
         = \<lparr>pending_txs = [], processed_txs = {0..<Suc n}, running = True, tx_count = Suc n,
            interesting_tx_count = Suc n,
            published = map (\<lambda>i. (''interesting_transaction'', i)) [0..<Suc n], log = []\<rparr>"
proof -
  have "insert n {0..<n} = {0..<Suc n}" by auto
  then show ?thesis
    using assms by (simp add: monitor_run_def process_batch_def Let_def)
qed

lemma one_by_one_run:
  "n \<le> 10000 \<Longrightarrow>
   monitor_run set_order (one_by_one n) initial_monitor
     = \<lparr>pending_txs = [], processed_txs = {0..<n}, running = True, tx_count = n,
        interesting_tx_count = n,
        published = map (\<lambda>i. (''interesting_transaction'', i)) [0..<n], log = []\<rparr>"
proof (induction n)
  case 0
  then show ?case by (simp add: one_by_one_def monitor_run_def initial_monitor_def)
next
  case (Suc n)
  then have "n < 10000" and "n \<le> 10000" by simp_all
  then show ?case
    using Suc.IH fresh_hash_round [of n set_order]
    by (simp only: one_by_one_Suc monitor_run_append)
qed

text \<open>The hash that overflows the dedup set: the set is cut to the last 5000 listed.\<close>

lemma overflow_round:
  assumes "10000 \<le> n"
  shows "monitor_run sorted_list_of_set [Message (Notification n), Batch (\<lambda>_. True) []]
           \<lparr>pending_txs = [], processed_txs = {0..<n}, running = True, tx_count = n,
            interesting_tx_count = n,
            published = map (\<lambda>i. (''interesting_transaction'', i)) [0..<n], log = []\<rparr>
         = \<lparr>pending_txs = [], processed_txs = {Suc n - 5000..<Suc n}, running = True,
            tx_count = Suc n, interesting_tx_count = Suc n,
            published = map (\<lambda>i. (''interesting_transaction'', i)) [0..<Suc n], log = []\<rparr>"
proof -
  have grow: "insert n {0..<n} = {0..<Suc n}" by auto
  have listed: "sorted_list_of_set {0..<Suc n} = [0..<Suc n]"
    by (rule sorted_list_of_set_range)
  have "drop (length [0..<Suc n] - 5000) [0..<Suc n] = [Suc n - 5000..<Suc n]"
    by (simp only: drop_upt length_upt) (simp del: upt_Suc)
  then have cut: "set (drop (length [0..<Suc n] - 5000) [0..<Suc n]) = {Suc n - 5000..<Suc n}"
    by (simp only: set_upt)
  have big: "card {0..<Suc n} > 10000"
    using assms by simp
  have before: "handle_websocket_message (Notification n)
           \<lparr>pending_txs = [], processed_txs = {0..<n}, running = True, tx_count = n,
            interesting_tx_count = n,
            published = map (\<lambda>i. (''interesting_transaction'', i)) [0..<n], log = []\<rparr>
        = \<lparr>pending_txs = [n], processed_txs = {0..<n}, running = True, tx_count = Suc n,
            interesting_tx_count = n,
            published = map (\<lambda>i. (''interesting_transaction'', i)) [0..<n], log = []\<rparr>"
    by simp
  have "process_batch sorted_list_of_set (\<lambda>_. True) []
           \<lparr>pending_txs = [n], processed_txs = {0..<n}, running = True, tx_count = Suc n,
            interesting_tx_count = n,
            published = map (\<lambda>i. (''interesting_transaction'', i)) [0..<n], log = []\<rparr>
        = \<lparr>pending_txs = [], processed_txs = set (drop (length [0..<Suc n] - 5000) [0..<Suc n]),
            running = True, tx_count = Suc n, interesting_tx_count = Suc n,
            published = map (\<lambda>i. (''interesting_transaction'', i)) [0..<Suc n], log = []\<rparr>"
    using big
    by (simp add: process_batch_def Let_def grow listed del: upt_Suc set_upt drop_upt length_upt)
       (simp)
  then show ?thesis
    by (simp only: monitor_run_def foldl.simps monitor_step.simps before cut)
qed

lemma evicted_hash_round:
  assumes "0 < (lo::nat)"
  shows "monitor_run set_order [Message (Notification 0), Batch (\<lambda>_. True) []]
           \<lparr>pending_txs = [], processed_txs = {lo..<hi}, running = True, tx_count = k,
            interesting_tx_count = k, published = P, log = []\<rparr>
         = \<lparr>pending_txs = [],
            processed_txs =
              (if card (insert 0 {lo..<hi}) > 10000
               then set (drop (length (set_order (insert 0 {lo..<hi})) - 5000)
                          (set_order (insert 0 {lo..<hi})))
               else insert 0 {lo..<hi}),
            running = True, tx_count = Suc k, interesting_tx_count = Suc k,
            published = P @ [(''interesting_transaction'', 0)], log = []\<rparr>"
  using assms by (simp add: monitor_run_def process_batch_def Let_def)

lemma overflow_feed_published:
  "published_hashes (monitor_run sorted_list_of_set overflow_feed initial_monitor)
     = [0..<10001] @ [0]"
proof -
  have split: "overflow_feed
      = one_by_one 10000 @ [Message (Notification 10000), Batch (\<lambda>_. True) []]
          @ [Message (Notification 0), Batch (\<lambda>_. True) []]"
  proof -
    have "(10001::nat) = Suc 10000" by simp
    then show ?thesis by (simp only: overflow_feed_def one_by_one_Suc append_assoc)
  qed
  have lo: "0 < Suc 10000 - (5000::nat)" by simp
  show ?thesis
    unfolding split monitor_run_append
    by (simp only: one_by_one_run [OF order_refl] overflow_round [OF order_refl]
        evicted_hash_round [OF lo])
       (simp add: published_hashes_def comp_def del: upt_Suc upt_rec_numeral)
qed

text \<open>
  Claim C4, as stated, fails: in the feed \<open>overflow_feed\<close> hash 0 is
  classified and published, evicted from the dedup set when the 10001st hash
  is processed, and classified and published a second time when the feed
  delivers it again.
\<close>

theorem evicted_hash_published_twice:
  "count_list (published_hashes (monitor_run sorted_list_of_set overflow_feed initial_monitor)) 0 = 2"
proof -
  have "count_list [0..<10001] (0::nat) = 1"
    by (simp only: count_list_distinct distinct_upt) simp
  then have a: "count_list (published_hashes (monitor_run sorted_list_of_set overflow_feed initial_monitor)) 0 = 2"
    by (simp only: overflow_feed_published count_list_append) simp
  show ?thesis using a .
qed

text \<open>On overflow exactly 5000 hashes of the dedup set and the batch are kept.\<close>

lemma overflow_cut:
  assumes batch: "take 20 (pending_txs s) \<noteq> []"
    and over: "card (processed_txs s \<union> set (take 20 (pending_txs s))) > 10000"
    and order: "lists_once set_order (processed_txs s \<union> set (take 20 (pending_txs s)))"
  shows "card (processed_txs (process_batch set_order interesting arrivals s)) = 5000
       \<and> processed_txs (process_batch set_order interesting arrivals s)
           \<subseteq> processed_txs s \<union> set (take 20 (pending_txs s))"
proof -
  let ?all = "processed_txs s \<union> set (take 20 (pending_txs s))"
  let ?listed = "set_order ?all"
  have kept: "processed_txs (process_batch set_order interesting arrivals s)
                = set (drop (length ?listed - 5000) ?listed)"
    using batch over by (simp add: process_batch_def Let_def)
  have whole: "set ?listed = ?all" and once: "distinct ?listed"
    using order by (simp_all add: lists_once_def)
  have "length ?listed = card ?all"
    using whole distinct_card [OF once] by simp
  then have long: "length ?listed > 10000"
    using over by simp
  have "card (set (drop (length ?listed - 5000) ?listed))
          = length (drop (length ?listed - 5000) ?listed)"
    using once by (intro distinct_card) simp
  also have "\<dots> = 5000"
    using long by simp
  finally have size: "card (set (drop (length ?listed - 5000) ?listed)) = 5000" .
  have "set (drop (length ?listed - 5000) ?listed) \<subseteq> ?all"
    using whole set_drop_subset [of "length ?listed - 5000" ?listed] by simp
  then show ?thesis
    using size by (simp only: kept)
qed

text \<open>
  Claim C4, amended: as long as the feed has delivered at most 10000 distinct
  hashes, however often each, every hash is published at most once; a
  notification for a hash that is in the dedup set changes nothing; after
  every step the dedup set holds at most 10000 entries; and a batch that lets
  it overflow cuts it to 5000 of its entries.
\<close>

theorem dedup_until_eviction:
  "(card (set (feed_hashes events)) \<le> 10000
      \<longrightarrow> distinct (published_hashes (monitor_run set_order events initial_monitor)))
   \<and> card (processed_txs (monitor_run set_order events initial_monitor)) \<le> 10000
   \<and> (h \<in> processed_txs s \<longrightarrow> handle_websocket_message (Notification h) s = s)
   \<and> (take 20 (pending_txs s) \<noteq> []
        \<and> card (processed_txs s \<union> set (take 20 (pending_txs s))) > 10000
        \<and> lists_once set_order (processed_txs s \<union> set (take 20 (pending_txs s)))
      \<longrightarrow> card (processed_txs (process_batch set_order interesting arrivals s)) = 5000
        \<and> processed_txs (process_batch set_order interesting arrivals s)
            \<subseteq> processed_txs s \<union> set (take 20 (pending_txs s)))"
proof (intro conjI impI)
  assume small: "card (set (feed_hashes events)) \<le> 10000"
  have "dedup_safe (set (feed_hashes events)) (initial_monitor :: 'a monitor)"
    by (simp add: dedup_safe_def initial_monitor_def published_hashes_def)
  from run_safe [OF this subset_refl _ small]
  show "distinct (published_hashes (monitor_run set_order events initial_monitor))"
    by (simp add: dedup_safe_def)
next
  have "dedup_bounded (initial_monitor :: 'a monitor)"
    by (simp add: dedup_bounded_def initial_monitor_def)
  from run_bounded [OF this]
  show "card (processed_txs (monitor_run set_order events initial_monitor)) \<le> 10000"
    by (simp add: dedup_bounded_def)
next
  assume "h \<in> processed_txs s"
  then show "handle_websocket_message (Notification h) s = s" by simp
next
  assume over: "take 20 (pending_txs s) \<noteq> []
        \<and> card (processed_txs s \<union> set (take 20 (pending_txs s))) > 10000
        \<and> lists_once set_order (processed_txs s \<union> set (take 20 (pending_txs s)))"
  then show "card (processed_txs (process_batch set_order interesting arrivals s)) = 5000"
    using overflow_cut [of s set_order interesting arrivals] by blast
  from over show "processed_txs (process_batch set_order interesting arrivals s)
            \<subseteq> processed_txs s \<union> set (take 20 (pending_txs s))"
    using overflow_cut [of s set_order interesting arrivals] by blast
qed

theorem dedup_until_eviction_witness:
  "card (set (feed_hashes repeated_feed)) \<le> 10000
   \<and> count_list (feed_hashes repeated_feed) 7 = 4
   \<and> published_hashes (monitor_run sorted_list_of_set repeated_feed initial_monitor) = [7]
   \<and> distinct (published_hashes (monitor_run sorted_list_of_set repeated_feed initial_monitor))
   \<and> card (processed_txs (monitor_run sorted_list_of_set repeated_feed initial_monitor)) \<le> 10000
   \<and> 7 \<in> processed_txs (monitor_run sorted_list_of_set repeated_feed initial_monitor)
   \<and> handle_websocket_message (Notification 7)
        (monitor_run sorted_list_of_set repeated_feed initial_monitor)
       = monitor_run sorted_list_of_set repeated_feed initial_monitor
   \<and> take 20 (pending_txs full_monitor) \<noteq> []
   \<and> card (processed_txs full_monitor \<union> set (take 20 (pending_txs full_monitor))) > 10000
   \<and> lists_once sorted_list_of_set
        (processed_txs full_monitor \<union> set (take 20 (pending_txs full_monitor)))
   \<and> card (processed_txs (process_batch sorted_list_of_set (\<lambda>_. True) [] full_monitor)) = 5000"
proof -
  have feed: "feed_hashes repeated_feed = [7, 7, 7, 7]"
    by (simp add: feed_hashes_def repeated_feed_def)
  have run: "monitor_run sorted_list_of_set repeated_feed initial_monitor
      = \<lparr>pending_txs = [], processed_txs = {7}, running = True, tx_count = 3,
         interesting_tx_count = 1, published = [(''interesting_transaction'', 7)], log = []\<rparr>"
    by (simp add: monitor_run_def repeated_feed_def initial_monitor_def process_batch_def Let_def)
  have small: "card (set (feed_hashes repeated_feed)) \<le> 10000"
    by (simp add: feed)
  have member: "7 \<in> processed_txs (monitor_run sorted_list_of_set repeated_feed initial_monitor)"
    by (simp add: run)
  have batch: "take 20 (pending_txs full_monitor) \<noteq> []"
    by (simp add: full_monitor_def)
  have all: "processed_txs full_monitor \<union> set (take 20 (pending_txs full_monitor))
               = {0..<Suc 10000}"
    by (auto simp: full_monitor_def)
  have over: "card (processed_txs full_monitor \<union> set (take 20 (pending_txs full_monitor))) > 10000"
    by (simp only: all card_atLeastLessThan)
  have order: "lists_once sorted_list_of_set
        (processed_txs full_monitor \<union> set (take 20 (pending_txs full_monitor)))"
    by (simp only: all lists_once_def sorted_list_of_set_range set_upt distinct_upt simp_thms)
  note result = dedup_until_eviction [of repeated_feed sorted_list_of_set 7
      "monitor_run sorted_list_of_set repeated_feed initial_monitor"]
  note cut = dedup_until_eviction [of repeated_feed sorted_list_of_set 7 full_monitor
      "\<lambda>_. True" "[]"]
  have d: "distinct (published_hashes (monitor_run sorted_list_of_set repeated_feed initial_monitor))"
    using result small by blast
  have c: "card (processed_txs (monitor_run sorted_list_of_set repeated_feed initial_monitor)) \<le> 10000"
    using result by blast
  have i: "handle_websocket_message (Notification 7)
        (monitor_run sorted_list_of_set repeated_feed initial_monitor)
       = monitor_run sorted_list_of_set repeated_feed initial_monitor"
    using result member by blast
  have k: "card (processed_txs (process_batch sorted_list_of_set (\<lambda>_. True) [] full_monitor)) = 5000"
    using cut batch over order by blast
  have p: "published_hashes (monitor_run sorted_list_of_set repeated_feed initial_monitor) = [7]"
    by (simp add: run published_hashes_def)
  have f: "count_list (feed_hashes repeated_feed) 7 = 4"
    by (simp add: feed)
  show ?thesis
    using small f p d c member i batch over order k by (intro conjI)
qed

section \<open>Theorems: bundle submission\<close>


text \<open>
  A malformed transaction list does not make the call raise either: each relay
  task ends with the conversion's exception, the submission is counted and the
  event carries two nulls.
\<close>

lemma malformed_bundle_is_counted:
  "submit_bundle accepting_relays
      (Some \<lparr>transactions = Some [Unsupported ''int''], target_block = Some 5\<rparr>) initial_manager
     = Inr (initial_manager
         \<lparr>manager_log :=
            [''Flashbots submission error'', ''Eden Network submission error''],
          bundles_submitted := 1, bundle_events := [BundleSubmitted None None 5]\<rparr>)"
  by (simp add: submit_bundle_def submit_bundle_body_def initial_manager_def
      submit_to_flashbots_def submit_to_eden_def result_or_none_def result_log_def)




section \<open>Theorems: adaptive parameters\<close>

lemma last_n_Nil [simp]: "last_n n [] = []" by (simp add: last_n_def)
lemma observed_slippages_Nil [simp]: "observed_slippages [] = []" by (simp add: observed_slippages_def)
lemma profit_ratios_Nil [simp]: "profit_ratios [] = []" by (simp add: profit_ratios_def)

lemma collect_fold:
  "foldl (\<lambda>acc s. add_strategy_metrics (execution_history a s) acc) (sl, sr, pr) ss
     = (sl @ map (\<lambda>s. mean (observed_slippages (last_n 20 (execution_history a s))))
               (filter (\<lambda>s. observed_slippages (last_n 20 (execution_history a s)) \<noteq> []) ss),
        sr @ map (\<lambda>s. real (length (filter success (last_n 20 (execution_history a s))))
                        / real (length (last_n 20 (execution_history a s))))
               (filter (\<lambda>s. execution_history a s \<noteq> []) ss),
        pr @ map (\<lambda>s. mean (profit_ratios (last_n 20 (execution_history a s))))
               (filter (\<lambda>s. profit_ratios (last_n 20 (execution_history a s)) \<noteq> []) ss))"
proof (induction ss arbitrary: sl sr pr)
  case Nil
  then show ?case by simp
next
  case (Cons s ss)
  show ?case
  proof (cases "execution_history a s = []")
    case True
    then show ?thesis using Cons.IH by (simp add: add_strategy_metrics_def)
  next
    case False
    then show ?thesis using Cons.IH by (simp add: add_strategy_metrics_def Let_def)
  qed
qed

lemma collect_metrics_means:
  "fst (collect_metrics a) = recent_slippage_means a"
  "snd (snd (collect_metrics a)) = recent_profit_ratio_means a"
  by (simp_all add: collect_metrics_def collect_fold recent_slippage_means_def
      recent_profit_ratio_means_def)

lemma success_rates_follow:
  "fst (collect_metrics a) \<noteq> [] \<Longrightarrow> fst (snd (collect_metrics a)) \<noteq> []"
proof -
  assume "fst (collect_metrics a) \<noteq> []"
  then obtain s where "s \<in> set strategies" "observed_slippages (last_n 20 (execution_history a s)) \<noteq> []"
    by (auto simp: collect_metrics_def collect_fold filter_empty_conv)
  then have "s \<in> set strategies" "execution_history a s \<noteq> []"
    by auto
  then show ?thesis
    by (auto simp: collect_metrics_def collect_fold filter_empty_conv)
qed

lemma clamp_bounds:
  fixes b :: real
  assumes "0 \<le> b"
  shows "b * 0.5 \<le> max (b * 0.5) (min x (b * 3.0))" and "max (b * 0.5) (min x (b * 3.0)) \<le> b * 3.0"
  using assms by (simp_all add: max_def min_def)

lemma update_parameters_cfg [simp]: "cfg (update_parameters a) = cfg a"
  by (simp add: update_parameters_def Let_def split: prod.splits)

lemma update_parameters_threshold:
  assumes "0 \<le> MIN_PROFIT_THRESHOLD (cfg a)"
    and "MIN_PROFIT_THRESHOLD (cfg a) * 0.5 \<le> min_profit_threshold a"
    and "min_profit_threshold a \<le> MIN_PROFIT_THRESHOLD (cfg a) * 3.0"
  shows "MIN_PROFIT_THRESHOLD (cfg a) * 0.5 \<le> min_profit_threshold (update_parameters a)
       \<and> min_profit_threshold (update_parameters a) \<le> MIN_PROFIT_THRESHOLD (cfg a) * 3.0"
proof (cases "collect_metrics a")
  case (fields sl sr pr)
  show ?thesis
  proof (cases "sl \<noteq> [] \<and> sr \<noteq> [] \<and> pr \<noteq> []")
    case True
    then obtain x where eq: "min_profit_threshold (update_parameters a)
        = max (MIN_PROFIT_THRESHOLD (cfg a) * 0.5) (min x (MIN_PROFIT_THRESHOLD (cfg a) * 3.0))"
      by (simp add: update_parameters_def fields Let_def)
    show ?thesis
      unfolding eq using clamp_bounds [OF assms(1), of x] by blast
  next
    case False
    then have "update_parameters a = a"
      by (auto simp: update_parameters_def fields)
    then show ?thesis using assms(2,3) by simp
  qed
qed

lemma update_parameters_tolerance:
  "slippage_tolerance (update_parameters a)
     = (if recent_slippage_means a \<noteq> [] \<and> recent_profit_ratio_means a \<noteq> []
        then max (SLIPPAGE_TOLERANCE (cfg a) * 0.5)
               (min (mean (recent_slippage_means a) * 1.5) (SLIPPAGE_TOLERANCE (cfg a) * 3.0))
        else slippage_tolerance a)"
  using collect_metrics_means [of a] success_rates_follow [of a]
  by (auto simp: update_parameters_def Let_def split: prod.splits)

lemma update_parameters_no_data:
  assumes "recent_slippage_means a = [] \<or> recent_profit_ratio_means a = []"
  shows "update_parameters a = a"
  using assms collect_metrics_means [of a]
  by (auto simp: update_parameters_def Let_def split: prod.splits)


lemma update_from_execution_keeps [simp]:
  "cfg (update_from_execution s e a) = cfg a"
  "min_profit_threshold (update_from_execution s e a) = min_profit_threshold a"
  by (simp_all add: update_from_execution_def)

lemma controller_step_threshold:
  assumes "0 \<le> MIN_PROFIT_THRESHOLD (cfg a)"
    and "MIN_PROFIT_THRESHOLD (cfg a) * 0.5 \<le> min_profit_threshold a"
    and "min_profit_threshold a \<le> MIN_PROFIT_THRESHOLD (cfg a) * 3.0"
  shows "cfg (controller_step c a) = cfg a
       \<and> MIN_PROFIT_THRESHOLD (cfg a) * 0.5 \<le> min_profit_threshold (controller_step c a)
       \<and> min_profit_threshold (controller_step c a) \<le> MIN_PROFIT_THRESHOLD (cfg a) * 3.0"
proof (cases c)
  case (RecordExecution s e)
  then show ?thesis using assms by simp
next
  case (GetMinProfitThreshold t)
  then show ?thesis
    using assms update_parameters_threshold [OF assms]
    by (simp add: get_min_profit_threshold_def Let_def)
next
  case UpdateParameters
  then show ?thesis using update_parameters_threshold [OF assms] by simp
qed

lemma controller_run_threshold:
  assumes "0 \<le> MIN_PROFIT_THRESHOLD (cfg a)"
    and "MIN_PROFIT_THRESHOLD (cfg a) * 0.5 \<le> min_profit_threshold a"
    and "min_profit_threshold a \<le> MIN_PROFIT_THRESHOLD (cfg a) * 3.0"
  shows "cfg (controller_run calls a) = cfg a
       \<and> MIN_PROFIT_THRESHOLD (cfg a) * 0.5 \<le> min_profit_threshold (controller_run calls a)
       \<and> min_profit_threshold (controller_run calls a) \<le> MIN_PROFIT_THRESHOLD (cfg a) * 3.0"
  using assms
proof (induction calls arbitrary: a)
  case Nil
  then show ?case by (simp add: controller_run_def)
next
  case (Cons c calls)
  note step = controller_step_threshold [OF Cons.prems, of c]
  have "cfg (controller_run calls (controller_step c a)) = cfg (controller_step c a)
       \<and> MIN_PROFIT_THRESHOLD (cfg (controller_step c a)) * 0.5
            \<le> min_profit_threshold (controller_run calls (controller_step c a))
       \<and> min_profit_threshold (controller_run calls (controller_step c a))
            \<le> MIN_PROFIT_THRESHOLD (cfg (controller_step c a)) * 3.0"
    using step Cons.prems(1) by (intro Cons.IH) simp_all
  then show ?case using step by (simp add: controller_run_def)
qed

text \<open>
  Claim C7, as stated, fails: after one failed execution with an observed
  slippage of 1 per cent and no realized profit, the recent mean slippage is 1,
  so the claimed tolerance is \<open>1.5\<close> clamped into \<open>[0.1, 0.6]\<close>, that
  is \<open>0.6\<close>; the recompute finds no profit ratio, changes nothing and
  leaves the tolerance at \<open>0.2\<close>.
\<close>

theorem tolerance_needs_profit_data:
  "slippage_tolerance
      (update_parameters
         (update_from_execution DEX_Arbitrage failed_execution (initial_parameters default_config 0)))
     = 0.2
   \<and> recent_slippage_means
        (update_from_execution DEX_Arbitrage failed_execution (initial_parameters default_config 0))
       = [1]
   \<and> max (0.2 * 0.5) (min (mean [1] * 1.5) (0.2 * 3.0)) = (0.6 :: real)"
proof -
  let ?a = "update_from_execution DEX_Arbitrage failed_execution (initial_parameters default_config 0)"
  have hist: "execution_history ?a s = (if s = DEX_Arbitrage then [failed_execution] else [])" for s
    by (simp add: update_from_execution_def initial_parameters_def last_n_def)
  have one: "last_n 20 [failed_execution] = [failed_execution]"
    by (simp add: last_n_def)
  have obs: "observed_slippages [failed_execution] = [1]"
    by (simp add: observed_slippages_def failed_execution_def)
  have rat: "profit_ratios [failed_execution] = []"
    by (simp add: profit_ratios_def failed_execution_def)
  have sl: "recent_slippage_means ?a = [1]"
    by (simp add: recent_slippage_means_def hist strategies_def one obs mean_def)
  have pr: "recent_profit_ratio_means ?a = []"
    by (simp add: recent_profit_ratio_means_def hist strategies_def one rat)
  have "slippage_tolerance (update_parameters ?a) = slippage_tolerance ?a"
    by (simp add: update_parameters_tolerance pr)
  moreover have "slippage_tolerance ?a = 0.2"
    by (simp add: update_from_execution_def initial_parameters_def default_config_def)
  ultimately show ?thesis
    using sl by (simp add: mean_def)
qed

text \<open>
  Claim C7, amended: for a non-negative base threshold, after any sequence of
  recorded executions, reads and recomputes the minimum-profit threshold lies
  within \<open>[0.5 * base, 3 * base]\<close>; and a recompute sets the slippage
  tolerance to 1.5 times the recent mean observed slippage, clamped to
  \<open>[0.5 * base_tolerance, 3 * base_tolerance]\<close>, whenever the recent history
  holds an observed slippage and a realized profit; otherwise the recompute
  leaves both parameters, and the rest of the state, unchanged.
\<close>

theorem recompute_clamps:
  assumes "0 \<le> MIN_PROFIT_THRESHOLD c"
  shows "MIN_PROFIT_THRESHOLD c * 0.5
           \<le> min_profit_threshold (controller_run calls (initial_parameters c t0))
       \<and> min_profit_threshold (controller_run calls (initial_parameters c t0))
           \<le> MIN_PROFIT_THRESHOLD c * 3.0
       \<and> slippage_tolerance (update_parameters a)
           = (if recent_slippage_means a \<noteq> [] \<and> recent_profit_ratio_means a \<noteq> []
              then max (SLIPPAGE_TOLERANCE (cfg a) * 0.5)
                     (min (mean (recent_slippage_means a) * 1.5) (SLIPPAGE_TOLERANCE (cfg a) * 3.0))
              else slippage_tolerance a)
       \<and> (recent_slippage_means a = [] \<or> recent_profit_ratio_means a = []
            \<longrightarrow> update_parameters a = a)"
proof -
  let ?a0 = "initial_parameters c t0"
  have start: "0 \<le> MIN_PROFIT_THRESHOLD (cfg ?a0)"
    "MIN_PROFIT_THRESHOLD (cfg ?a0) * 0.5 \<le> min_profit_threshold ?a0"
    "min_profit_threshold ?a0 \<le> MIN_PROFIT_THRESHOLD (cfg ?a0) * 3.0"
    using assms by (simp_all add: initial_parameters_def)
  have "cfg ?a0 = c" by (simp add: initial_parameters_def)
  then show ?thesis
    using controller_run_threshold [OF start, of calls] update_parameters_tolerance [of a]
      update_parameters_no_data [of a]
    by simp
qed


theorem recompute_clamps_witness:
  "0 \<le> MIN_PROFIT_THRESHOLD default_config
   \<and> min_profit_threshold
        (controller_run [RecordExecution DEX_Arbitrage filled_execution, UpdateParameters]
           (initial_parameters default_config 0)) = 0.1046
   \<and> MIN_PROFIT_THRESHOLD default_config * 0.5
        \<le> min_profit_threshold
            (controller_run [RecordExecution DEX_Arbitrage filled_execution, UpdateParameters]
               (initial_parameters default_config 0))
   \<and> min_profit_threshold
        (controller_run [RecordExecution DEX_Arbitrage filled_execution, UpdateParameters]
           (initial_parameters default_config 0))
        \<le> MIN_PROFIT_THRESHOLD default_config * 3.0
   \<and> slippage_tolerance
        (update_parameters
           (update_from_execution DEX_Arbitrage filled_execution
              (initial_parameters default_config 0))) = 0.3
   \<and> update_parameters (initial_parameters default_config 0) = initial_parameters default_config 0"
proof -
  let ?a = "update_from_execution DEX_Arbitrage filled_execution (initial_parameters default_config 0)"
  have base: "0 \<le> MIN_PROFIT_THRESHOLD default_config"
    by (simp add: default_config_def)
  have hist: "execution_history ?a s = (if s = DEX_Arbitrage then [filled_execution] else [])" for s
    by (simp add: update_from_execution_def initial_parameters_def last_n_def)
  have one: "last_n 20 [filled_execution] = [filled_execution]"
    by (simp add: last_n_def)
  have obs: "observed_slippages [filled_execution] = [0.2]"
    by (simp add: observed_slippages_def filled_execution_def)
  have rat: "profit_ratios [filled_execution] = [0.8]"
    by (simp add: profit_ratios_def filled_execution_def)
  have won: "success filled_execution"
    by (simp add: filled_execution_def)
  have metrics: "collect_metrics ?a = ([0.2], [1], [0.8])"
    by (simp only: collect_metrics_def collect_fold)
       (simp add: hist strategies_def one obs rat won mean_def)
  have config: "cfg ?a = default_config"
    by (simp add: update_from_execution_def initial_parameters_def)
  have sl: "recent_slippage_means ?a = [0.2]"
    using collect_metrics_means(1) [of ?a] by (simp add: metrics)
  have pr: "recent_profit_ratio_means ?a = [0.8]"
    using collect_metrics_means(2) [of ?a] by (simp add: metrics)
  have thr: "min_profit_threshold (update_parameters ?a) = 0.1046"
    by (simp only: update_parameters_def metrics config prod.case)
       (simp add: default_config_def mean_def)
  have run: "controller_run [RecordExecution DEX_Arbitrage filled_execution, UpdateParameters]
               (initial_parameters default_config 0) = update_parameters ?a"
    by (simp add: controller_run_def)
  note result = recompute_clamps [OF base,
      of "[RecordExecution DEX_Arbitrage filled_execution, UpdateParameters]" 0 ?a]
  have "slippage_tolerance (update_parameters ?a)
          = (if recent_slippage_means ?a \<noteq> [] \<and> recent_profit_ratio_means ?a \<noteq> []
             then max (SLIPPAGE_TOLERANCE (cfg ?a) * 0.5)
                    (min (mean (recent_slippage_means ?a) * 1.5) (SLIPPAGE_TOLERANCE (cfg ?a) * 3.0))
             else slippage_tolerance ?a)"
    using result by blast
  then have tol: "slippage_tolerance (update_parameters ?a) = 0.3"
    by (simp only: sl pr config) (simp add: default_config_def mean_def)
  have lower: "MIN_PROFIT_THRESHOLD default_config * 0.5
        \<le> min_profit_threshold
            (controller_run [RecordExecution DEX_Arbitrage filled_execution, UpdateParameters]
               (initial_parameters default_config 0))"
    using result by blast
  have upper: "min_profit_threshold
        (controller_run [RecordExecution DEX_Arbitrage filled_execution, UpdateParameters]
           (initial_parameters default_config 0))
        \<le> MIN_PROFIT_THRESHOLD default_config * 3.0"
    using result by blast
  have empty: "recent_slippage_means (initial_parameters default_config 0) = []"
    by (simp add: recent_slippage_means_def initial_parameters_def)
  have same: "update_parameters (initial_parameters default_config 0)
                = initial_parameters default_config 0"
    using recompute_clamps [OF base, of "[]" 0 "initial_parameters default_config 0"] empty
    by blast
  show ?thesis
    using base lower upper tol thr same by (simp only: run)
qed

end
